theory Spec2Isabelle
  imports Main "HOL-Library.Multiset"
begin

section \<open>Route discovery from the container runtime (events.go)\<close>

subsection \<open>Data of the runtime client, as \<open>createRoutes\<close> reads it\<close>

text \<open>
  Only the fields that \<open>events.go\<close> reads are kept. Go strings are \<open>string\<close>; a pointer
  that may be nil is an \<open>option\<close>; a Go map read by key is a map \<open>string \<rightharpoonup> _\<close>.
\<close>

datatype error = ErrListenerAlreadyExists | Err string

record PortBinding =
  HostIP :: string
  HostPort :: string

record ContainerNetwork =
  NetworkIP :: string  \<comment> \<open>\<open>ContainerNetwork.IPAddress\<close>\<close>

text \<open>
  \<open>Networks\<close> is a Go map that line 92 ranges over. Go leaves the iteration order of a map
  unspecified, so the field holds the entries of the map (one pair per key) and the order
  in which one pass visits them is chosen by the schedule below.
\<close>

record NetworkSettings =
  IPAddress :: string
  Ports :: "string \<rightharpoonup> PortBinding list"
  Networks :: "(string \<times> ContainerNetwork) list"

record Config =
  Env :: "string list"

type_synonym SwarmNode = string

record Container =
  ID :: string
  Name :: string
  Config :: "Config option"
  NetworkSettings :: "NetworkSettings option"
  Node :: "SwarmNode option"

record APIContainers =
  ListedID :: string  \<comment> \<open>\<open>APIContainers.ID\<close>\<close>

text \<open>
  The replies of the daemon to the two calls that \<open>createRoutes\<close> makes on its client.
\<close>

record Client =
  ListContainers :: "error + APIContainers list"
  InspectContainer :: "string \<Rightarrow> error + Container"

subsection \<open>Routes\<close>

text \<open>
  Modelled from the spec: the declarations of \<open>Route\<close>, \<open>Routes\<close>, \<open>NewRouteBuilder\<close>,
  \<open>isValid\<close> and \<open>Routes.Add\<close> are not in \<open>events.go\<close>. The fields \<open>Upstream.IP\<close>,
  \<open>Upstream.Port\<close> and \<open>Upstream.Container\<close> are the ones \<open>createRoutes\<close> assigns; the
  host key is the spec's \<open>host_key\<close>.
\<close>

record Upstream =
  IP :: string
  Port :: string
  Container :: string

record Route =
  host_key :: string
  Upstream :: Upstream

type_synonym Routes = "string \<rightharpoonup> Route"

text \<open>
  Modelled from the spec: \<open>isValid\<close> is missing from the sources; a Route is valid iff
  \<open>host_key\<close>, \<open>upstream.ip\<close> and \<open>upstream.port\<close> are all non-empty.
\<close>

definition isValid :: "Route \<Rightarrow> bool" where
  "isValid r = (host_key r \<noteq> [] \<and> IP (Upstream r) \<noteq> [] \<and> Port (Upstream r) \<noteq> [])"

text \<open>
  Modelled from the spec: \<open>Routes.Add\<close> is missing from the sources; a snapshot is a mapping
  from \<open>host_key\<close> to Route with unique keys, so adding stores the route under its host key.
\<close>

definition Add :: "Routes \<Rightarrow> Route \<Rightarrow> Routes" where
  "Add routes r = routes(host_key r \<mapsto> r)"

subsection \<open>The order of concurrent and unordered steps\<close>

text \<open>
  Two things in one pass are not fixed by the program text: the order in which the
  inspection goroutines of lines 27-38 deliver on the channel, and the order in which the
  \<open>range\<close> of line 92 visits the entries of \<open>Networks\<close>. Both are inputs of the model; a real
  pass uses permutations.
\<close>

record schedule =
  arrival :: "Container list \<Rightarrow> Container list"
  netOrder :: "(string \<times> ContainerNetwork) list \<Rightarrow> (string \<times> ContainerNetwork) list"

subsection \<open>Port and address resolution (lines 48-112)\<close>

text \<open>\<open>strings.Split(s, ",")\<close>: always at least one field, \<open>[""]\<close> for the empty string.\<close>

fun Split :: "string \<Rightarrow> string list" where
  "Split [] = [[]]"
| "Split (x # xs) =
     (if x = CHR '','' then [] # Split xs
      else (case Split xs of [] \<Rightarrow> [[x]] | w # ws \<Rightarrow> (x # w) # ws))"

text \<open>Lines 53-59: the first candidate whose \<open>"<port>/tcp"\<close> is a key of \<open>Ports\<close>.\<close>

fun findPort :: "(string \<rightharpoonup> PortBinding list) \<Rightarrow> string list \<Rightarrow> string option" where
  "findPort P [] = None"
| "findPort P (port # rest) =
     (if P (port @ ''/tcp'') \<noteq> None then Some port else findPort P rest)"

text \<open>Lines 52-60.\<close>

definition resolvePort :: "string \<Rightarrow> Route \<Rightarrow> NetworkSettings \<Rightarrow> Route" where
  "resolvePort ports route ns =
     (if Port (Upstream route) = [] then
        (case findPort (Ports ns) (Split ports) of
           None \<Rightarrow> route
         | Some port \<Rightarrow> route\<lparr>Upstream := (Upstream route)\<lparr>Port := port\<rparr>\<rparr>)
      else route)"

text \<open>Lines 76-82: the first binding whose host IP is not \<open>0.0.0.0\<close> sets IP and port.\<close>

fun useBindings :: "PortBinding list \<Rightarrow> Upstream \<Rightarrow> Upstream" where
  "useBindings [] u = u"
| "useBindings (binding # rest) u =
     (if HostIP binding \<noteq> ''0.0.0.0''
      then u\<lparr>IP := HostIP binding, Port := HostPort binding\<rparr>
      else useBindings rest u)"

text \<open>Lines 92-97: the first visited network with a non-empty address.\<close>

fun useNetworks :: "(string \<times> ContainerNetwork) list \<Rightarrow> Upstream \<Rightarrow> Upstream" where
  "useNetworks [] u = u"
| "useNetworks ((name, network) # rest) u =
     (if NetworkIP network \<noteq> [] then u\<lparr>IP := NetworkIP network\<rparr> else useNetworks rest u)"

text \<open>
  Lines 69-98 on the upstream of a route whose port is resolved: the container name,
  the bindings of \<open>"<port>/tcp"\<close> (a missing key reads as the nil slice), the bridge
  address and the attached networks.
\<close>

definition resolveAddress :: "schedule \<Rightarrow> Container \<Rightarrow> NetworkSettings \<Rightarrow> Upstream \<Rightarrow> Upstream" where
  "resolveAddress sched c ns u0 =
     (let u1 = u0\<lparr>Container := Name c\<rparr>;
          bindings = (case Ports ns (Port u1 @ ''/tcp'') of None \<Rightarrow> [] | Some bs \<Rightarrow> bs);
          u2 = useBindings bindings u1;
          u3 = (if Node c = None \<and> IP u2 = [] then u2\<lparr>IP := IPAddress ns\<rparr> else u2);
          u4 = (if Node c = None \<and> IP u3 = []
                then useNetworks (netOrder sched (Networks ns)) u3 else u3)
      in u4)"

text \<open>
  One iteration of the loop of lines 47-113. \<open>Panic\<close> is a Go run-time panic: the nil
  dereference of \<open>container.Config\<close> (line 49) or of \<open>container.NetworkSettings\<close> (line 55
  or 73, whichever is reached), and the slice \<open>container.ID[0:7]\<close> of an ID shorter than
  seven bytes, which lines 64, 101 and 110 evaluate as an argument of the log call.
  \<open>build\<close> is \<open>NewRouteBuilder\<close> followed by \<open>ParseAll\<close> (not in \<open>events.go\<close>), \<open>ports\<close> the
  flag \<open>*ports\<close>.
\<close>

datatype decision = Panic | Skip | Admit Route

definition containerRoute ::
  "string \<Rightarrow> (string list \<Rightarrow> Route) \<Rightarrow> schedule \<Rightarrow> Container \<Rightarrow> decision" where
  "containerRoute ports build sched c =
     (case Config c of
        None \<Rightarrow> Panic
      | Some cfg \<Rightarrow>
        (case NetworkSettings c of
           None \<Rightarrow> Panic
         | Some ns \<Rightarrow>
           (let route = resolvePort ports (build (Env cfg)) ns in
            if Port (Upstream route) = [] then
              (if length (ID c) < 7 then Panic else Skip)
            else
              (let route' = route\<lparr>Upstream := resolveAddress sched c ns (Upstream route)\<rparr> in
               if IP (Upstream route') = [] then
                 (if length (ID c) < 7 then Panic else Skip)
               else if \<not> isValid route' then Skip
               else if length (ID c) < 7 then Panic
               else Admit route'))))"

subsection \<open>\<open>createRoutes\<close> (lines 17-116)\<close>

datatype outcome = Panicked | Returned "Routes option" "error option"

text \<open>Lines 47-115: the loop over the channel, from the map made at line 45.\<close>

fun collect ::
  "string \<Rightarrow> (string list \<Rightarrow> Route) \<Rightarrow> schedule \<Rightarrow> Container list \<Rightarrow> Routes \<Rightarrow> outcome" where
  "collect ports build sched [] routes = Returned (Some routes) None"
| "collect ports build sched (c # cs) routes =
     (case containerRoute ports build sched c of
        Panic \<Rightarrow> Panicked
      | Skip \<Rightarrow> collect ports build sched cs routes
      | Admit route \<Rightarrow> collect ports build sched cs (Add routes route))"

text \<open>
  Lines 27-38: one goroutine per listed container; a failed inspection sends nothing.
\<close>

fun inspectAll :: "Client \<Rightarrow> APIContainers list \<Rightarrow> Container list" where
  "inspectAll client [] = []"
| "inspectAll client (a # rest) =
     (case InspectContainer client (ListedID a) of
        Inl e \<Rightarrow> inspectAll client rest
      | Inr container \<Rightarrow> container # inspectAll client rest)"

text \<open>
  The result of a pass and the inspections its goroutines were started for. A failed
  listing returns the nil map with the error at line 21, before any goroutine is started.
\<close>

record pass =
  result :: outcome
  inspections :: "string list"

definition createRoutes ::
  "string \<Rightarrow> (string list \<Rightarrow> Route) \<Rightarrow> schedule \<Rightarrow> Client \<Rightarrow> pass" where
  "createRoutes ports build sched client =
     (case ListContainers client of
        Inl err \<Rightarrow> \<lparr>result = Returned None (Some err), inspections = []\<rparr>
      | Inr containers \<Rightarrow>
          \<lparr>result = collect ports build sched
                      (arrival sched (inspectAll client containers)) Map.empty,
           inspections = map ListedID containers\<rparr>)"

subsection \<open>\<open>watchEvents\<close> (lines 118-199)\<close>

text \<open>
  The loop never returns, so it is modelled by its loop bodies: one step runs the head of
  the outer loop (lines 124-145) or one iteration of the inner loop (lines 147-197), and
  yields the new values of the local variables with the calls it made, in order. What the
  runtime answers is the environment's choice: each step is given a reply for every call
  it may make (each body makes each call at most once), and ignores the others.
\<close>

text \<open>The pointer held in \<open>client\<close>; which client it points to plays no role.\<close>

datatype handle = Handle

record APIEvents =
  Status :: string
  EventID :: string  \<comment> \<open>\<open>APIEvents.ID\<close>\<close>

datatype selected = Event "APIEvents option" | Timeout

record answers =
  ping_reply :: "error option"  \<comment> \<open>\<open>client.Ping()\<close>\<close>
  connect_reply :: "error + handle"  \<comment> \<open>\<open>docker.NewClientFromEnv()\<close>\<close>
  listen_reply :: "error option"  \<comment> \<open>\<open>client.AddEventListener(eventChan)\<close>\<close>
  select_reply :: selected  \<comment> \<open>the \<open>select\<close> of line 173; \<open>Event None\<close> is the nil event\<close>
  daemon_reply :: Client  \<comment> \<open>what the daemon answers during \<open>createRoutes(client)\<close>\<close>
  pass_schedule :: schedule

datatype action =
    Ping | NewClientFromEnv | CreateRoutes | AddEventListener | RemoveEventListener
  | Sleep nat
  | Errorln string | Debugln string | Infoln string
  | UpdateFunc "Routes option"

definition ReconnectTime :: nat where
  "ReconnectTime = 10"  \<comment> \<open>seconds\<close>

datatype location = OuterLoop | InnerLoop | Crashed

record state =
  cur_client :: "handle option"  \<comment> \<open>\<open>client\<close>\<close>
  cur_routes :: "Routes option"  \<comment> \<open>\<open>routes\<close>; \<open>None\<close> is the nil map\<close>
  watching :: bool
  at :: location

text \<open>
  Lines 133-139 and 186-192 (the same text twice): a pass, then the callback if the pass
  returned no error and \<open>updateFunc\<close> is not nil (\<open>hasUpdateFunc\<close>). A panic of the pass
  ends the process.
\<close>

definition enumerate ::
  "bool \<Rightarrow> string \<Rightarrow> (string list \<Rightarrow> Route) \<Rightarrow> answers \<Rightarrow> state \<Rightarrow> state \<times> action list" where
  "enumerate hasUpdateFunc ports build a st =
     (case result (createRoutes ports build (pass_schedule a) (daemon_reply a)) of
        Panicked \<Rightarrow> (st\<lparr>at := Crashed\<rparr>, [CreateRoutes])
      | Returned routes err \<Rightarrow>
          (st\<lparr>cur_routes := routes\<rparr>,
           [CreateRoutes]
           @ (if err \<noteq> None then [Errorln ''Error enumerating routes:''] else [])
           @ (if err = None \<and> hasUpdateFunc then [UpdateFunc routes] else [])))"

text \<open>Lines 124-145: the head of the outer loop, up to the entry of the inner loop.\<close>

definition outerStep ::
  "bool \<Rightarrow> string \<Rightarrow> (string list \<Rightarrow> Route) \<Rightarrow> state \<Rightarrow> answers \<Rightarrow> state \<times> action list" where
  "outerStep hasUpdateFunc ports build st a =
     (let pinged = (if cur_client st = None then [] else [Ping]) in
      if cur_client st = None \<or> ping_reply a = None then
        (case connect_reply a of
           Inl err \<Rightarrow>
             (st\<lparr>cur_client := None\<rparr>,
              pinged @ [NewClientFromEnv, Errorln ''Unable to connect to docker daemon:'',
                        Sleep ReconnectTime])
         | Inr h \<Rightarrow>
             (let (st', acts) = enumerate hasUpdateFunc ports build a (st\<lparr>cur_client := Some h\<rparr>)
              in ((if at st' = Crashed then st' else st'\<lparr>watching := False, at := InnerLoop\<rparr>),
                  pinged @ [NewClientFromEnv, Debugln ''Connected to docker daemon...''] @ acts)))
      else (st\<lparr>watching := False, at := InnerLoop\<rparr>, pinged))"

text \<open>
  Lines 147-197: one iteration of the inner loop. The \<open>break\<close> of line 181 leaves the
  \<open>select\<close> only; the loop is left by the test of line 147 in the next iteration. Line 185
  slices \<open>event.ID[:12]\<close>, which panics on a shorter ID.
\<close>

definition innerStep ::
  "bool \<Rightarrow> string \<Rightarrow> (string list \<Rightarrow> Route) \<Rightarrow> state \<Rightarrow> answers \<Rightarrow> state \<times> action list" where
  "innerStep hasUpdateFunc ports build st a =
     (case cur_client st of
        None \<Rightarrow> (st\<lparr>at := OuterLoop\<rparr>, [])
      | Some h \<Rightarrow>
        (case ping_reply a of
           Some err \<Rightarrow>
             ((if watching st then st\<lparr>watching := False, cur_client := None\<rparr> else st)
                \<lparr>at := OuterLoop\<rparr>,
              [Ping, Errorln ''Unable to ping docker daemon:'']
              @ (if watching st then [RemoveEventListener] else [])
              @ [Sleep ReconnectTime])
         | None \<Rightarrow>
             if \<not> watching st \<and> listen_reply a \<noteq> None
                \<and> listen_reply a \<noteq> Some ErrListenerAlreadyExists
             then
               (st, [Ping, AddEventListener,
                     Errorln ''Error registering docker event listener:'', Sleep ReconnectTime])
             else
               (let listened = (if watching st then []
                                else [AddEventListener, Infoln ''Watching docker events...'']);
                    st1 = st\<lparr>watching := True\<rparr>
                in case select_reply a of
                     Timeout \<Rightarrow> (st1, Ping # listened)
                   | Event None \<Rightarrow>
                       (if watching st1
                        then (st1\<lparr>watching := False, cur_client := None\<rparr>,
                              Ping # listened @ [RemoveEventListener])
                        else (st1, Ping # listened))
                   | Event (Some event) \<Rightarrow>
                       if Status event = ''start'' \<or> Status event = ''stop''
                          \<or> Status event = ''die''
                       then
                         (if length (EventID event) < 12
                          then (st1\<lparr>at := Crashed\<rparr>, Ping # listened)
                          else
                            (let (st2, acts) = enumerate hasUpdateFunc ports build a st1
                             in (st2, Ping # listened @ [Debugln ''Received event''] @ acts)))
                       else (st1, Ping # listened))))"

definition step ::
  "bool \<Rightarrow> string \<Rightarrow> (string list \<Rightarrow> Route) \<Rightarrow> state \<Rightarrow> answers \<Rightarrow> state \<times> action list" where
  "step hasUpdateFunc ports build st a =
     (case at st of
        OuterLoop \<Rightarrow> outerStep hasUpdateFunc ports build st a
      | InnerLoop \<Rightarrow> innerStep hasUpdateFunc ports build st a
      | Crashed \<Rightarrow> (st, []))"

fun run ::
  "bool \<Rightarrow> string \<Rightarrow> (string list \<Rightarrow> Route) \<Rightarrow> state \<Rightarrow> answers list \<Rightarrow> state \<times> action list" where
  "run hasUpdateFunc ports build st [] = (st, [])"
| "run hasUpdateFunc ports build st (a # as) =
     (let (st', acts) = step hasUpdateFunc ports build st a;
          (st'', acts') = run hasUpdateFunc ports build st' as
      in (st'', acts @ acts'))"

text \<open>Lines 119-121: the variables start at their zero values.\<close>

definition watchEvents ::
  "bool \<Rightarrow> string \<Rightarrow> (string list \<Rightarrow> Route) \<Rightarrow> answers list \<Rightarrow> state \<times> action list" where
  "watchEvents hasUpdateFunc ports build as =
     run hasUpdateFunc ports build
       \<lparr>cur_client = None, cur_routes = None, watching = False, at = OuterLoop\<rparr> as"

subsection \<open>Notions used to state the properties\<close>

text \<open>
  A container as the runtime reports it: \<open>Config\<close> and \<open>NetworkSettings\<close> present and an ID
  of at least the seven bytes that the log calls slice. On such containers no iteration of
  the loop of \<open>createRoutes\<close> panics.
\<close>

definition complete :: "Container \<Rightarrow> bool" where
  "complete c = (Config c \<noteq> None \<and> NetworkSettings c \<noteq> None \<and> 7 \<le> length (ID c))"

text \<open>A schedule of a real pass only reorders: deliveries and map entries are permuted.\<close>

definition permuting :: "schedule \<Rightarrow> bool" where
  "permuting s =
     ((\<forall>cs. mset (arrival s cs) = mset cs) \<and> (\<forall>ns. mset (netOrder s ns) = mset ns))"

text \<open>The non-empty addresses of the attached networks of a container are all the same.\<close>

definition oneNetworkAddress :: "Container \<Rightarrow> bool" where
  "oneNetworkAddress c =
     (case NetworkSettings c of
        None \<Rightarrow> True
      | Some ns \<Rightarrow>
          (\<forall>x \<in> set (Networks ns). \<forall>y \<in> set (Networks ns).
             NetworkIP (snd x) \<noteq> [] \<longrightarrow> NetworkIP (snd y) \<noteq> [] \<longrightarrow>
             NetworkIP (snd x) = NetworkIP (snd y)))"

text \<open>
  The containers of a listing whose inspection succeeds, in the order of the listing.
\<close>

definition succeeded :: "Client \<Rightarrow> APIContainers list \<Rightarrow> Container list" where
  "succeeded client listing =
     concat (map (\<lambda>a. case InspectContainer client (ListedID a) of
                         Inl e \<Rightarrow> [] | Inr c \<Rightarrow> [c]) listing)"

text \<open>
  The upstream as lines 69-88 leave it, before the attached networks are looked at.
\<close>

definition addressBeforeNetworks :: "Container \<Rightarrow> NetworkSettings \<Rightarrow> Upstream \<Rightarrow> Upstream" where
  "addressBeforeNetworks c ns u0 =
     (let u1 = u0\<lparr>Container := Name c\<rparr>;
          bindings = (case Ports ns (Port u1 @ ''/tcp'') of None \<Rightarrow> [] | Some bs \<Rightarrow> bs);
          u2 = useBindings bindings u1
      in if Node c = None \<and> IP u2 = [] then u2\<lparr>IP := IPAddress ns\<rparr> else u2)"

text \<open>
  The iteration for the container takes its address from the attached networks and
  admits the route if it finds one: the port is resolved, the guard of line 91 holds
  (local, no address from a binding or the bridge), the host key and the port are not
  empty, and the ID is long enough for the log call of line 110.
\<close>

definition choosesNetwork :: "string \<Rightarrow> (string list \<Rightarrow> Route) \<Rightarrow> Container \<Rightarrow> bool" where
  "choosesNetwork ports build c =
     (case Config c of
        None \<Rightarrow> False
      | Some cfg \<Rightarrow>
        (case NetworkSettings c of
           None \<Rightarrow> False
         | Some ns \<Rightarrow>
           (let route = resolvePort ports (build (Env cfg)) ns;
                u = addressBeforeNetworks c ns (Upstream route)
            in Port (Upstream route) \<noteq> [] \<and> Node c = None \<and> IP u = []
               \<and> host_key route \<noteq> [] \<and> Port u \<noteq> [] \<and> 7 \<le> length (ID c))))"

text \<open>The containers that reach the loop of a pass: listed, and inspected with success.\<close>

definition inspected :: "Client \<Rightarrow> Container list" where
  "inspected client =
     (case ListContainers client of
        Inl err \<Rightarrow> []
      | Inr containers \<Rightarrow> inspectAll client containers)"

text \<open>The routes that the iterations over the given containers admit, in order.\<close>

fun admitted ::
  "string \<Rightarrow> (string list \<Rightarrow> Route) \<Rightarrow> schedule \<Rightarrow> Container list \<Rightarrow> Route list" where
  "admitted ports build sched [] = []"
| "admitted ports build sched (c # cs) =
     (case containerRoute ports build sched c of
        Admit route \<Rightarrow> route # admitted ports build sched cs
      | _ \<Rightarrow> admitted ports build sched cs)"

fun isUpdate :: "action \<Rightarrow> bool" where
  "isUpdate (UpdateFunc routes) = True"
| "isUpdate _ = False"

subsection \<open>Example inputs\<close>

text \<open>
  \<open>ParseAll\<close> is a parameter of the model. The examples use a builder that reads the host
  key from \<open>VIRTUAL_HOST=<host>\<close>, as in the scenarios of the specification, and declares
  no port.
\<close>

fun stripPrefix :: "string \<Rightarrow> string \<Rightarrow> string option" where
  "stripPrefix [] s = Some s"
| "stripPrefix (p # ps) [] = None"
| "stripPrefix (p # ps) (x # xs) = (if p = x then stripPrefix ps xs else None)"

fun virtualHost :: "string list \<Rightarrow> string" where
  "virtualHost [] = []"
| "virtualHost (e # es) =
     (case stripPrefix ''VIRTUAL_HOST='' e of Some h \<Rightarrow> h | None \<Rightarrow> virtualHost es)"

definition hostBuilder :: "string list \<Rightarrow> Route" where
  "hostBuilder env =
     \<lparr>host_key = virtualHost env, Upstream = \<lparr>IP = [], Port = [], Container = []\<rparr>\<rparr>"

definition inOrder :: schedule where
  "inOrder = \<lparr>arrival = id, netOrder = id\<rparr>"

definition reversed :: schedule where
  "reversed = \<lparr>arrival = rev, netOrder = rev\<rparr>"

text \<open>
  The container of the scenarios: \<open>VIRTUAL_HOST=foo.example.com\<close>, port \<open>8080/tcp\<close> with the
  given bindings, bridge address \<open>172.17.0.2\<close>, local.
\<close>

definition web :: "PortBinding list \<Rightarrow> Container" where
  "web bindings =
     \<lparr>ID = ''4f5e6d7c8b9a0123'', Name = ''/web'',
      Config = Some \<lparr>Env = [''PATH=/bin'', ''VIRTUAL_HOST=foo.example.com'']\<rparr>,
      NetworkSettings =
        Some \<lparr>IPAddress = ''172.17.0.2'', Ports = [''8080/tcp'' \<mapsto> bindings], Networks = []\<rparr>,
      Node = None\<rparr>"

text \<open>A local container without a bridge address, attached to two networks.\<close>

definition api :: Container where
  "api =
     \<lparr>ID = ''0a1b2c3d4e5f6789'', Name = ''/api'',
      Config = Some \<lparr>Env = [''VIRTUAL_HOST=api.example.com'']\<rparr>,
      NetworkSettings =
        Some \<lparr>IPAddress = [], Ports = [''80/tcp'' \<mapsto> []],
              Networks = [(''front'', \<lparr>NetworkIP = ''10.1.0.2''\<rparr>),
                          (''back'', \<lparr>NetworkIP = ''10.2.0.2''\<rparr>)]\<rparr>,
      Node = None\<rparr>"

text \<open>A second container that declares the host of \<open>web\<close>, at another bridge address.\<close>

definition replica :: Container where
  "replica =
     \<lparr>ID = ''7b6a5948372615ff'', Name = ''/replica'',
      Config = Some \<lparr>Env = [''VIRTUAL_HOST=foo.example.com'']\<rparr>,
      NetworkSettings =
        Some \<lparr>IPAddress = ''172.17.0.3'', Ports = [''8080/tcp'' \<mapsto> []], Networks = []\<rparr>,
      Node = None\<rparr>"

text \<open>A local container with a bridge address, on two networks that both give it one.\<close>

definition dual :: Container where
  "dual =
     \<lparr>ID = ''c3d2e1f0a9b87654'', Name = ''/dual'',
      Config = Some \<lparr>Env = [''VIRTUAL_HOST=dual.example.com'']\<rparr>,
      NetworkSettings =
        Some \<lparr>IPAddress = ''172.17.0.4'', Ports = [''80/tcp'' \<mapsto> []],
              Networks = [(''front'', \<lparr>NetworkIP = ''10.1.0.4''\<rparr>),
                          (''back'', \<lparr>NetworkIP = ''10.2.0.4''\<rparr>)]\<rparr>,
      Node = None\<rparr>"

text \<open>The schedule that visits a given network first, and changes nothing else.\<close>

definition visitFirst :: "string \<times> ContainerNetwork \<Rightarrow> schedule" where
  "visitFirst x =
     \<lparr>arrival = id, netOrder = (\<lambda>ns. if x \<in> set ns then x # remove1 x ns else ns)\<rparr>"

text \<open>A local container on two networks, of which one gives it an address.\<close>

definition cache :: Container where
  "cache =
     \<lparr>ID = ''9e8d7c6b5a4f3210'', Name = ''/cache'',
      Config = Some \<lparr>Env = [''VIRTUAL_HOST=cache.example.com'']\<rparr>,
      NetworkSettings =
        Some \<lparr>IPAddress = [], Ports = [''80/tcp'' \<mapsto> []],
              Networks = [(''none'', \<lparr>NetworkIP = []\<rparr>),
                          (''back'', \<lparr>NetworkIP = ''10.2.0.3''\<rparr>)]\<rparr>,
      Node = None\<rparr>"

text \<open>
  A daemon that lists the given containers and one more, \<open>gone\<close>, whose inspection fails.
\<close>

definition daemonOf :: "Container list \<Rightarrow> Client" where
  "daemonOf cs =
     \<lparr>ListContainers = Inr (map (\<lambda>c. \<lparr>ListedID = ID c\<rparr>) cs @ [\<lparr>ListedID = ''gone''\<rparr>]),
      InspectContainer =
        (\<lambda>i. case List.find (\<lambda>c. ID c = i) cs of
                None \<Rightarrow> Inl (Err ''No such container'')
              | Some c \<Rightarrow> Inr c)\<rparr>"

definition unreachable :: Client where
  "unreachable =
     \<lparr>ListContainers = Inl (Err ''connection refused''),
      InspectContainer = (\<lambda>i. Inl (Err ''connection refused''))\<rparr>"

text \<open>
  Replies of a healthy runtime with no event pending, and variations of them.
\<close>

definition quiet :: "Client \<Rightarrow> answers" where
  "quiet d =
     \<lparr>ping_reply = None, connect_reply = Inr Handle, listen_reply = None,
      select_reply = Timeout, daemon_reply = d, pass_schedule = inOrder\<rparr>"

definition pingFails :: "Client \<Rightarrow> answers" where
  "pingFails d = (quiet d)\<lparr>ping_reply := Some (Err ''EOF'')\<rparr>"

definition connectFails :: "Client \<Rightarrow> answers" where
  "connectFails d = (quiet d)\<lparr>connect_reply := Inl (Err ''connection refused'')\<rparr>"

definition delivers :: "APIEvents option \<Rightarrow> Client \<Rightarrow> answers" where
  "delivers event d = (quiet d)\<lparr>select_reply := Event event\<rparr>"

section \<open>Properties of one enumeration pass\<close>

subsection \<open>The examples, evaluated\<close>

lemma web_ID: "ID (web bs) = ''4f5e6d7c8b9a0123''"
  by (simp add: web_def)

lemma web_route:
  "containerRoute ''80,8080'' hostBuilder inOrder (web []) =
     Admit \<lparr>host_key = ''foo.example.com'',
            Upstream = \<lparr>IP = ''172.17.0.2'', Port = ''8080'', Container = ''/web''\<rparr>\<rparr>"
  by (simp add: containerRoute_def web_def hostBuilder_def inOrder_def resolvePort_def
      resolveAddress_def isValid_def Let_def)

lemma arrival_inOrder: "arrival inOrder cs = cs"
  by (simp add: inOrder_def)

lemma pass_web:
  "result (createRoutes ''80,8080'' hostBuilder inOrder (daemonOf [web []])) =
     Returned
       (Some [''foo.example.com'' \<mapsto>
                \<lparr>host_key = ''foo.example.com'',
                 Upstream = \<lparr>IP = ''172.17.0.2'', Port = ''8080'', Container = ''/web''\<rparr>\<rparr>])
       None"
  by (simp add: createRoutes_def daemonOf_def web_ID web_route Add_def arrival_inOrder)

subsection \<open>Only valid routes enter a snapshot\<close>

lemma containerRoute_Admit_valid:
  "containerRoute ports build sched c = Admit r \<Longrightarrow> isValid r"
  by (auto simp: containerRoute_def Let_def split: option.splits if_splits)

lemma collect_valid:
  "collect ports build sched cs acc = Returned snap err \<Longrightarrow>
   (\<And>k r. acc k = Some r \<Longrightarrow> host_key r = k \<and> isValid r) \<Longrightarrow>
   \<exists>routes. snap = Some routes \<and> err = None
     \<and> (\<forall>k r. routes k = Some r \<longrightarrow> host_key r = k \<and> isValid r)"
proof (induction cs arbitrary: acc)
  case Nil
  then show ?case by auto
next
  case (Cons c cs)
  show ?case
  proof (cases "containerRoute ports build sched c")
    case Panic
    with Cons.prems show ?thesis by simp
  next
    case Skip
    with Cons show ?thesis by simp
  next
    case (Admit route)
    then have v: "isValid route" by (rule containerRoute_Admit_valid)
    from Admit Cons.prems(1)
    have "collect ports build sched cs (Add acc route) = Returned snap err" by simp
    moreover have "\<And>k r. Add acc route k = Some r \<Longrightarrow> host_key r = k \<and> isValid r"
      using v Cons.prems(2) by (auto simp: Add_def split: if_splits)
    ultimately show ?thesis using Cons.IH by blast
  qed
qed

text \<open>
  Claim C1. When \<open>createRoutes\<close> returns with a nil error, what it returns is a map (the
  one made at line 45), and every route stored in it has a non-empty host key, a
  non-empty upstream IP and a non-empty upstream port, and is stored under its host key:
  a route that fails \<open>isValid\<close> is never added.
\<close>

theorem snapshot_routes_valid:
  assumes "result (createRoutes ports build sched client) = Returned snap None"
  shows "\<exists>routes. snap = Some routes \<and>
           (\<forall>k r. routes k = Some r \<longrightarrow>
              host_key r = k \<and> host_key r \<noteq> [] \<and> IP (Upstream r) \<noteq> []
              \<and> Port (Upstream r) \<noteq> [])"
proof (cases "ListContainers client")
  case (Inl e)
  with assms show ?thesis by (simp add: createRoutes_def)
next
  case (Inr containers)
  with assms have
    "collect ports build sched (arrival sched (inspectAll client containers)) Map.empty
       = Returned snap None"
    by (simp add: createRoutes_def)
  from collect_valid [OF this] show ?thesis by (auto simp: isValid_def)
qed

theorem snapshot_routes_valid_witness:
  "result (createRoutes ''80,8080'' hostBuilder inOrder (daemonOf [web []])) =
     Returned
       (Some [''foo.example.com'' \<mapsto>
                \<lparr>host_key = ''foo.example.com'',
                 Upstream = \<lparr>IP = ''172.17.0.2'', Port = ''8080'', Container = ''/web''\<rparr>\<rparr>])
       None
   \<and> host_key \<lparr>host_key = ''foo.example.com'',
                 Upstream = \<lparr>IP = ''172.17.0.2'', Port = ''8080'', Container = ''/web''\<rparr>\<rparr>
       \<noteq> []"
proof -
  let ?r = "\<lparr>host_key = ''foo.example.com'',
             Upstream = \<lparr>IP = ''172.17.0.2'', Port = ''8080'', Container = ''/web''\<rparr>\<rparr>"
  from snapshot_routes_valid [OF pass_web]
  obtain routes where eq: "Some [''foo.example.com'' \<mapsto> ?r] = Some routes"
    and valid: "\<forall>k r. routes k = Some r \<longrightarrow>
              host_key r = k \<and> host_key r \<noteq> [] \<and> IP (Upstream r) \<noteq> []
              \<and> Port (Upstream r) \<noteq> []"
    by blast
  from eq have "routes ''foo.example.com'' = Some ?r" by auto
  with valid have "host_key ?r \<noteq> []" by blast
  with pass_web show ?thesis by blast
qed

subsection \<open>Port resolution from the candidate list\<close>

lemma findPort_find:
  "findPort P ps = List.find (\<lambda>p. (p @ ''/tcp'') \<in> dom P) ps"
  by (induction ps) (auto simp: dom_def)

lemma collect_Skip:
  "containerRoute ports build sched c = Skip \<Longrightarrow>
   collect ports build sched (before @ c # after) acc = collect ports build sched (before @ after) acc"
  by (induction before arbitrary: acc) (auto split: decision.splits)

text \<open>
  Claim C3. For an inspected container whose builder output declares no port, the port
  resolved by lines 52-60 is the first candidate of the configured list, in list order,
  whose \<open>"<port>/tcp"\<close> is a key of the container's port bindings (and stays empty if
  there is none). If no candidate matches, the iteration admits no route, and the loop
  over the channel yields what it yields without that container.
\<close>

theorem candidate_port_resolution:
  assumes "Config c = Some cfg" and "NetworkSettings c = Some ns"
    and "Port (Upstream (build (Env cfg))) = []"
  shows "Port (Upstream (resolvePort ports (build (Env cfg)) ns)) =
           (case List.find (\<lambda>p. (p @ ''/tcp'') \<in> dom (Ports ns)) (Split ports) of
              None \<Rightarrow> [] | Some p \<Rightarrow> p)
         \<and> (List.find (\<lambda>p. (p @ ''/tcp'') \<in> dom (Ports ns)) (Split ports) = None \<longrightarrow>
              (\<forall>r. containerRoute ports build sched c \<noteq> Admit r)
              \<and> (7 \<le> length (ID c) \<longrightarrow>
                   collect ports build sched (before @ c # after) acc
                   = collect ports build sched (before @ after) acc))"
proof -
  let ?found = "List.find (\<lambda>p. (p @ ''/tcp'') \<in> dom (Ports ns)) (Split ports)"
  have port: "Port (Upstream (resolvePort ports (build (Env cfg)) ns)) =
           (case ?found of None \<Rightarrow> [] | Some p \<Rightarrow> p)"
    using assms(3) by (simp add: resolvePort_def findPort_find split: option.splits)
  have none: "containerRoute ports build sched c = (if length (ID c) < 7 then Panic else Skip)"
    if "?found = None"
    using that port assms(1,2) by (simp add: containerRoute_def Let_def)
  show ?thesis
  proof (intro conjI impI allI)
    show "Port (Upstream (resolvePort ports (build (Env cfg)) ns)) =
           (case ?found of None \<Rightarrow> [] | Some p \<Rightarrow> p)" by (rule port)
  next
    fix r assume "?found = None"
    from none [OF this] show "containerRoute ports build sched c \<noteq> Admit r" by simp
  next
    assume "?found = None" and "7 \<le> length (ID c)"
    with none have "containerRoute ports build sched c = Skip" by simp
    then show "collect ports build sched (before @ c # after) acc
                   = collect ports build sched (before @ after) acc" by (rule collect_Skip)
  qed
qed

theorem candidate_port_resolution_witness:
  "Port (Upstream (resolvePort ''80,8080''
       (hostBuilder [''PATH=/bin'', ''VIRTUAL_HOST=foo.example.com''])
       \<lparr>IPAddress = ''172.17.0.2'', Ports = [''8080/tcp'' \<mapsto> []], Networks = []\<rparr>)) = ''8080''
   \<and> collect ''80,443'' hostBuilder inOrder ([] @ web [] # []) Map.empty
       = collect ''80,443'' hostBuilder inOrder ([] @ []) Map.empty"
proof -
  let ?cfg = "\<lparr>Env = [''PATH=/bin'', ''VIRTUAL_HOST=foo.example.com'']\<rparr>"
  let ?ns = "\<lparr>IPAddress = ''172.17.0.2'', Ports = [''8080/tcp'' \<mapsto> []], Networks = []\<rparr>"
  have c: "Config (web []) = Some ?cfg" and n: "NetworkSettings (web []) = Some ?ns"
    by (simp_all add: web_def)
  have p: "Port (Upstream (hostBuilder (Env ?cfg))) = []"
    by (simp add: hostBuilder_def)
  have "Port (Upstream (resolvePort ''80,8080'' (hostBuilder (Env ?cfg)) ?ns)) = ''8080''"
    using candidate_port_resolution
      [where c = "web []" and cfg = ?cfg and ns = ?ns and build = hostBuilder
         and ports = "''80,8080''", OF c n p]
    by simp
  moreover have "collect ''80,443'' hostBuilder inOrder ([] @ web [] # []) Map.empty
       = collect ''80,443'' hostBuilder inOrder ([] @ []) Map.empty"
    using candidate_port_resolution
      [where c = "web []" and cfg = ?cfg and ns = ?ns and build = hostBuilder
         and ports = "''80,443''" and sched = inOrder and before = "[]" and after = "[]"
         and acc = Map.empty, OF c n p]
    by (simp add: web_ID)
  ultimately show ?thesis by simp
qed

subsection \<open>The loop over the channel\<close>

lemma collect_fold:
  "collect ports build sched cs acc =
     (if \<exists>c \<in> set cs. containerRoute ports build sched c = Panic then Panicked
      else Returned (Some (fold (\<lambda>r m. Add m r) (admitted ports build sched cs) acc)) None)"
  by (induction cs arbitrary: acc) (auto split: decision.splits)

lemma mset_admitted:
  "mset (admitted ports build sched cs) =
     (\<Sum>c \<in># mset cs. case containerRoute ports build sched c of
                          Admit r \<Rightarrow> {#r#} | _ \<Rightarrow> {#})"
  by (induction cs) (auto split: decision.splits)

lemma set_admitted:
  "set (admitted ports build sched cs) =
     {r. \<exists>c \<in> set cs. containerRoute ports build sched c = Admit r}"
  by (induction cs) (auto split: decision.splits)

lemma fold_Add_lookup:
  "fold (\<lambda>r m. Add m r) rs acc k = Some r \<Longrightarrow> acc k = Some r \<or> r \<in> set rs"
  by (induction rs arbitrary: acc) (fastforce simp: Add_def split: if_splits)+

lemma fold_Add_dom:
  "dom (fold (\<lambda>r m. Add m r) rs acc) = dom acc \<union> host_key ` set rs"
  by (induction rs arbitrary: acc) (auto simp: Add_def)

subsection \<open>Failed inspections\<close>

lemma inspectAll_append:
  "inspectAll client (xs @ ys) = inspectAll client xs @ inspectAll client ys"
  by (induction xs) (auto split: sum.splits)

lemma inspectAll_failed:
  "InspectContainer client (ListedID a) = Inl e \<Longrightarrow>
   inspectAll client (before @ a # after) = inspectAll client (before @ after)"
  by (simp add: inspectAll_append)

lemma set_inspectAll:
  "c \<in> set (inspectAll client listing) \<Longrightarrow>
   \<exists>a \<in> set listing. InspectContainer client (ListedID a) = Inr c"
  by (induction listing) (auto split: sum.splits)

lemma containerRoute_complete:
  "complete c \<Longrightarrow> containerRoute ports build sched c \<noteq> Panic"
  by (auto simp: complete_def containerRoute_def Let_def split: option.splits)

lemma collect_complete:
  "(\<And>c. c \<in> set cs \<Longrightarrow> complete c) \<Longrightarrow>
   \<exists>routes. collect ports build sched cs acc = Returned (Some routes) None"
proof (induction cs arbitrary: acc)
  case Nil
  show ?case by simp
next
  case (Cons c cs)
  then have "containerRoute ports build sched c \<noteq> Panic"
    by (simp add: containerRoute_complete)
  with Cons show ?case
    by (cases "containerRoute ports build sched c") simp_all
qed

lemma collect_no_error: "collect ports build sched cs acc \<noteq> Returned snap (Some err)"
  by (induction cs arbitrary: acc) (auto split: decision.splits)

lemma permuting_inOrder: "permuting inOrder"
  by (simp add: permuting_def inOrder_def)

lemma complete_web: "complete (web bs)"
  by (simp add: complete_def web_def)

lemma inspectAll_succeeded: "inspectAll client listing = succeeded client listing"
  by (induction listing) (simp_all add: succeeded_def split: sum.splits)

lemma set_succeeded:
  "set (succeeded client listing) =
     {c. \<exists>a \<in> set listing. InspectContainer client (ListedID a) = Inr c}"
  by (induction listing) (auto simp: succeeded_def split: sum.splits)

lemma succeeded_web:
  "succeeded (daemonOf [web []]) [\<lparr>ListedID = ''4f5e6d7c8b9a0123''\<rparr>] = [web []]"
  by (simp add: succeeded_def daemonOf_def web_ID)

text \<open>
  Claim C9. A listed container whose inspection fails is skipped, and the pass is built
  from the others: its result is that of the loop over the containers of the rest of the
  listing whose inspection succeeds, in their order of arrival; it is the result for the
  listing without that container, and never an error. When the schedule only reorders and
  those containers are complete, the pass returns, with a nil error, the map obtained by
  adding the routes they are admitted with: its keys are the host keys of those routes,
  and every route in it is the route of such a container.
\<close>

theorem failed_inspection_skipped:
  assumes "ListContainers client = Inr (before @ a # after)"
    and "InspectContainer client (ListedID a) = Inl e"
  shows "result (createRoutes ports build sched client)
           = collect ports build sched
               (arrival sched (succeeded client (before @ after))) Map.empty
         \<and> result (createRoutes ports build sched client)
           = result (createRoutes ports build sched
                       (client\<lparr>ListContainers := Inr (before @ after)\<rparr>))
         \<and> result (createRoutes ports build sched client) \<noteq> Returned snap (Some err)
         \<and> (permuting sched
              \<and> (\<forall>a' \<in> set (before @ after). \<forall>c.
                    InspectContainer client (ListedID a') = Inr c \<longrightarrow> complete c)
              \<longrightarrow> (\<exists>routes.
                     result (createRoutes ports build sched client) = Returned (Some routes) None
                     \<and> routes = fold (\<lambda>r m. Add m r)
                                  (admitted ports build sched
                                     (arrival sched (succeeded client (before @ after))))
                                  Map.empty
                     \<and> dom routes =
                         {host_key r | r. \<exists>a' \<in> set (before @ after). \<exists>c.
                            InspectContainer client (ListedID a') = Inr c
                            \<and> containerRoute ports build sched c = Admit r}
                     \<and> (\<forall>k r. routes k = Some r \<longrightarrow>
                           (\<exists>a' \<in> set (before @ after). \<exists>c.
                              InspectContainer client (ListedID a') = Inr c
                              \<and> containerRoute ports build sched c = Admit r))))"
proof -
  let ?cs = "succeeded client (before @ after)"
  have "inspectAll client (before @ a # after) = inspectAll client (before @ after)"
    using assms(2) by (rule inspectAll_failed)
  then have same: "inspectAll client (before @ a # after) = ?cs"
    by (simp only: inspectAll_succeeded)
  have one: "result (createRoutes ports build sched client)
           = collect ports build sched (arrival sched ?cs) Map.empty"
    using assms(1) same by (simp add: createRoutes_def)
  have "inspectAll (client\<lparr>ListContainers := Inr (before @ after)\<rparr>) xs = inspectAll client xs"
    for xs by (induction xs) (auto split: sum.splits)
  then have two: "result (createRoutes ports build sched client)
           = result (createRoutes ports build sched
                       (client\<lparr>ListContainers := Inr (before @ after)\<rparr>))"
    using one by (simp add: createRoutes_def inspectAll_succeeded)
  have three: "result (createRoutes ports build sched client) \<noteq> Returned snap (Some err)"
    using one by (simp add: collect_no_error)
  have four: "\<exists>routes.
                     result (createRoutes ports build sched client) = Returned (Some routes) None
                     \<and> routes = fold (\<lambda>r m. Add m r)
                                  (admitted ports build sched (arrival sched ?cs)) Map.empty
                     \<and> dom routes =
                         {host_key r | r. \<exists>a' \<in> set (before @ after). \<exists>c.
                            InspectContainer client (ListedID a') = Inr c
                            \<and> containerRoute ports build sched c = Admit r}
                     \<and> (\<forall>k r. routes k = Some r \<longrightarrow>
                           (\<exists>a' \<in> set (before @ after). \<exists>c.
                              InspectContainer client (ListedID a') = Inr c
                              \<and> containerRoute ports build sched c = Admit r))"
    if h: "permuting sched
              \<and> (\<forall>a' \<in> set (before @ after). \<forall>c.
                    InspectContainer client (ListedID a') = Inr c \<longrightarrow> complete c)"
  proof -
    let ?routes = "fold (\<lambda>r m. Add m r) (admitted ports build sched (arrival sched ?cs))
                     Map.empty"
    have "mset (arrival sched ?cs) = mset ?cs"
      using h by (simp add: permuting_def)
    then have arrived: "set (arrival sched ?cs) = set ?cs"
      by (rule mset_eq_setD)
    have "complete c" if "c \<in> set (arrival sched ?cs)" for c
      using that h arrived by (auto simp: set_succeeded)
    then have "\<not> (\<exists>c \<in> set (arrival sched ?cs). containerRoute ports build sched c = Panic)"
      by (auto dest: containerRoute_complete)
    then have r: "result (createRoutes ports build sched client) = Returned (Some ?routes) None"
      using one by (simp add: collect_fold)
    have rs: "set (admitted ports build sched (arrival sched ?cs)) =
            {r. \<exists>a' \<in> set (before @ after). \<exists>c.
                            InspectContainer client (ListedID a') = Inr c
                            \<and> containerRoute ports build sched c = Admit r}"
      unfolding set_admitted arrived set_succeeded by blast
    have d: "dom ?routes =
                         {host_key r | r. \<exists>a' \<in> set (before @ after). \<exists>c.
                            InspectContainer client (ListedID a') = Inr c
                            \<and> containerRoute ports build sched c = Admit r}"
      unfolding fold_Add_dom rs by auto
    have l: "\<exists>a' \<in> set (before @ after). \<exists>c.
                              InspectContainer client (ListedID a') = Inr c
                              \<and> containerRoute ports build sched c = Admit r"
      if "?routes k = Some r" for k r
      using fold_Add_lookup [OF that] rs by auto
    from r d l show ?thesis by blast
  qed
  from one two three four show ?thesis by blast
qed

theorem failed_inspection_skipped_witness:
  "ListContainers (daemonOf [web []])
     = Inr ([\<lparr>ListedID = ''4f5e6d7c8b9a0123''\<rparr>] @ \<lparr>ListedID = ''gone''\<rparr> # [])
   \<and> InspectContainer (daemonOf [web []]) (ListedID \<lparr>ListedID = ''gone''\<rparr>)
       = Inl (Err ''No such container'')
   \<and> result (createRoutes ''80,8080'' hostBuilder inOrder (daemonOf [web []]))
       = Returned
           (Some [''foo.example.com'' \<mapsto>
                    \<lparr>host_key = ''foo.example.com'',
                     Upstream = \<lparr>IP = ''172.17.0.2'', Port = ''8080'',
                                 Container = ''/web''\<rparr>\<rparr>])
           None"
proof -
  have l: "ListContainers (daemonOf [web []])
             = Inr ([\<lparr>ListedID = ''4f5e6d7c8b9a0123''\<rparr>] @ \<lparr>ListedID = ''gone''\<rparr> # [])"
    by (simp add: daemonOf_def web_ID)
  have i: "InspectContainer (daemonOf [web []]) (ListedID \<lparr>ListedID = ''gone''\<rparr>)
             = Inl (Err ''No such container'')"
    by (simp add: daemonOf_def web_ID)
  from failed_inspection_skipped [OF l i, of "''80,8080''" hostBuilder inOrder]
  have "result (createRoutes ''80,8080'' hostBuilder inOrder (daemonOf [web []]))
          = collect ''80,8080'' hostBuilder inOrder
              (arrival inOrder
                 (succeeded (daemonOf [web []]) ([\<lparr>ListedID = ''4f5e6d7c8b9a0123''\<rparr>] @ [])))
              Map.empty"
    by blast
  then have "result (createRoutes ''80,8080'' hostBuilder inOrder (daemonOf [web []]))
       = Returned
           (Some [''foo.example.com'' \<mapsto>
                    \<lparr>host_key = ''foo.example.com'',
                     Upstream = \<lparr>IP = ''172.17.0.2'', Port = ''8080'',
                                 Container = ''/web''\<rparr>\<rparr>])
           None"
    by (simp add: succeeded_web arrival_inOrder web_route Add_def)
  with l i show ?thesis by blast
qed

subsection \<open>A failed listing\<close>

text \<open>
  Claim C4. If listing the containers fails, \<open>createRoutes\<close> returns that error with the
  nil map, no inspection is started, and a step of the loop given that reply does not
  call the callback: the pass is followed by the error log only.
\<close>

theorem failed_listing_publishes_nothing:
  assumes "ListContainers (daemon_reply a) = Inl e"
  shows "createRoutes ports build (pass_schedule a) (daemon_reply a)
           = \<lparr>result = Returned None (Some e), inspections = []\<rparr>
         \<and> snd (enumerate hasUpdateFunc ports build a st)
             = [CreateRoutes, Errorln ''Error enumerating routes:'']
         \<and> filter isUpdate (snd (step hasUpdateFunc ports build st a)) = []"
proof -
  have pass: "createRoutes ports build (pass_schedule a) (daemon_reply a)
           = \<lparr>result = Returned None (Some e), inspections = []\<rparr>"
    using assms by (simp add: createRoutes_def)
  have enum: "enumerate hasUpdateFunc ports build a st' =
      (st'\<lparr>cur_routes := None\<rparr>, [CreateRoutes, Errorln ''Error enumerating routes:''])" for st'
    by (simp add: enumerate_def pass)
  have "filter isUpdate (snd (outerStep hasUpdateFunc ports build st a)) = []"
    by (simp add: outerStep_def enum Let_def split: sum.splits)
  moreover have "filter isUpdate (snd (innerStep hasUpdateFunc ports build st a)) = []"
    by (simp add: innerStep_def enum Let_def split: option.splits selected.splits)
  ultimately have "filter isUpdate (snd (step hasUpdateFunc ports build st a)) = []"
    by (simp add: step_def split: location.splits)
  with pass enum show ?thesis by simp
qed

theorem failed_listing_publishes_nothing_witness:
  "ListContainers (daemon_reply (quiet unreachable)) = Inl (Err ''connection refused'')
   \<and> createRoutes ''80,8080'' hostBuilder (pass_schedule (quiet unreachable))
         (daemon_reply (quiet unreachable))
       = \<lparr>result = Returned None (Some (Err ''connection refused'')), inspections = []\<rparr>
   \<and> filter isUpdate
         (snd (step True ''80,8080'' hostBuilder
                 \<lparr>cur_client = None, cur_routes = None, watching = False, at = OuterLoop\<rparr>
                 (quiet unreachable))) = []"
proof -
  have l: "ListContainers (daemon_reply (quiet unreachable)) = Inl (Err ''connection refused'')"
    by (simp add: quiet_def unreachable_def)
  from failed_listing_publishes_nothing [OF l] l show ?thesis by blast
qed

subsection \<open>Address resolution\<close>

lemma useBindings_find:
  "useBindings bs u =
     (case List.find (\<lambda>b. HostIP b \<noteq> ''0.0.0.0'') bs of
        None \<Rightarrow> u
      | Some b \<Rightarrow> u\<lparr>IP := HostIP b, Port := HostPort b\<rparr>)"
  by (induction bs) auto

lemma useNetworks_find:
  "useNetworks ns u =
     (case List.find (\<lambda>x. NetworkIP (snd x) \<noteq> []) ns of
        None \<Rightarrow> u
      | Some x \<Rightarrow> u\<lparr>IP := NetworkIP (snd x)\<rparr>)"
  by (induction ns u rule: useNetworks.induct) auto

lemma resolveAddress_binding:
  assumes "Ports ns (Port u @ ''/tcp'') = Some bs"
    and "List.find (\<lambda>b. HostIP b \<noteq> ''0.0.0.0'') bs = Some b"
    and "HostIP b \<noteq> []"
  shows "resolveAddress sched c ns u = \<lparr>IP = HostIP b, Port = HostPort b, Container = Name c\<rparr>"
  using assms by (simp add: resolveAddress_def useBindings_find Let_def)

lemma resolveAddress_local:
  assumes "List.find (\<lambda>b. HostIP b \<noteq> ''0.0.0.0'')
             (case Ports ns (Port u @ ''/tcp'') of None \<Rightarrow> [] | Some bs \<Rightarrow> bs) = None"
    and "Node c = None" and "IP u = []"
  shows "resolveAddress sched c ns u =
           (if IPAddress ns \<noteq> [] then \<lparr>IP = IPAddress ns, Port = Port u, Container = Name c\<rparr>
            else useNetworks (netOrder sched (Networks ns))
                   \<lparr>IP = [], Port = Port u, Container = Name c\<rparr>)"
  using assms by (cases u) (simp add: resolveAddress_def useBindings_find Let_def)

text \<open>
  Claim C2. Address resolution is meant to be first match wins: a binding of the resolved
  port whose host IP is not \<open>0.0.0.0\<close> gives the upstream its host IP and host port, and
  only otherwise does a local container fall back to its bridge address with the
  container's own port. The code selects a binding whose host IP is empty (it is not
  \<open>0.0.0.0\<close>), overwrites the port with the host port, and then, the IP being empty,
  falls back to the bridge address all the same: the route pairs the bridge address with
  the host port.
\<close>

theorem empty_host_ip_binding:
  "containerRoute ''80,8080'' hostBuilder inOrder (web [\<lparr>HostIP = [], HostPort = ''32768''\<rparr>]) =
     Admit \<lparr>host_key = ''foo.example.com'',
            Upstream = \<lparr>IP = ''172.17.0.2'', Port = ''32768'', Container = ''/web''\<rparr>\<rparr>"
  by (simp add: containerRoute_def web_def hostBuilder_def inOrder_def resolvePort_def
      resolveAddress_def isValid_def Let_def)

subsection \<open>Two passes over the same containers\<close>

lemma useNetworks_reorder:
  assumes "set ns' = set ns"
    and "\<forall>x \<in> set ns. \<forall>y \<in> set ns.
           NetworkIP (snd x) \<noteq> [] \<longrightarrow> NetworkIP (snd y) \<noteq> [] \<longrightarrow>
           NetworkIP (snd x) = NetworkIP (snd y)"
  shows "useNetworks ns' u = useNetworks ns u"
proof (cases "List.find (\<lambda>x. NetworkIP (snd x) \<noteq> []) ns")
  case None
  then have "\<not> (\<exists>x \<in> set ns. NetworkIP (snd x) \<noteq> [])" by (auto simp: find_None_iff)
  with assms(1) have "List.find (\<lambda>x. NetworkIP (snd x) \<noteq> []) ns' = None"
    by (auto simp: find_None_iff)
  with None show ?thesis by (simp add: useNetworks_find)
next
  case (Some x)
  then have x: "x \<in> set ns" "NetworkIP (snd x) \<noteq> []"
    by (auto simp: find_Some_iff in_set_conv_nth)
  with assms(1) have "\<exists>y \<in> set ns'. NetworkIP (snd y) \<noteq> []" by blast
  then obtain y where y: "List.find (\<lambda>x. NetworkIP (snd x) \<noteq> []) ns' = Some y"
    by (cases "List.find (\<lambda>x. NetworkIP (snd x) \<noteq> []) ns'") (auto simp: find_None_iff)
  then have "y \<in> set ns'" "NetworkIP (snd y) \<noteq> []"
    by (auto simp: find_Some_iff in_set_conv_nth)
  with x assms have "NetworkIP (snd y) = NetworkIP (snd x)" by blast
  with Some y show ?thesis by (simp add: useNetworks_find)
qed

lemma resolveAddress_networks:
  "resolveAddress sched c ns u0 =
     (if Node c = None \<and> IP (addressBeforeNetworks c ns u0) = []
      then useNetworks (netOrder sched (Networks ns)) (addressBeforeNetworks c ns u0)
      else addressBeforeNetworks c ns u0)"
  by (auto simp: resolveAddress_def addressBeforeNetworks_def Let_def)

lemma useNetworks_shape:
  "\<exists>ip. useNetworks ns u = u\<lparr>IP := ip\<rparr>
        \<and> (ip = [] \<longleftrightarrow> IP u = [] \<and> (\<forall>x \<in> set ns. NetworkIP (snd x) = []))"
proof (induction ns u rule: useNetworks.induct)
  case (1 u)
  show ?case by (rule exI [of _ "IP u"]) simp
next
  case (2 name network rest u)
  show ?case
  proof (cases "NetworkIP network = []")
    case True
    with 2 show ?thesis by simp
  next
    case False
    then show ?thesis by (intro exI [of _ "NetworkIP network"]) simp
  qed
qed

lemma containerRoute_reorder:
  assumes "permuting s1" and "permuting s2"
    and "choosesNetwork ports build c \<longrightarrow> oneNetworkAddress c"
  shows "containerRoute ports build s1 c = containerRoute ports build s2 c"
proof (cases "Config c")
  case None
  then show ?thesis by (simp add: containerRoute_def)
next
  case cfg: (Some cfg)
  show ?thesis
  proof (cases "NetworkSettings c")
    case None
    with cfg show ?thesis by (simp add: containerRoute_def)
  next
    case ns: (Some ns)
    let ?route = "resolvePort ports (build (Env cfg)) ns"
    let ?u = "addressBeforeNetworks c ns (Upstream ?route)"
    have s1: "set (netOrder s1 (Networks ns)) = set (Networks ns)"
      using assms(1) by (intro mset_eq_setD) (simp add: permuting_def)
    have s2: "set (netOrder s2 (Networks ns)) = set (Networks ns)"
      using assms(2) by (intro mset_eq_setD) (simp add: permuting_def)
    show ?thesis
    proof (cases "Port (Upstream ?route) \<noteq> [] \<and> Node c = None \<and> IP ?u = []")
      case False
      then show ?thesis
        using cfg ns by (auto simp: containerRoute_def Let_def resolveAddress_networks)
    next
      case guard: True
      obtain ip1 where ip1: "useNetworks (netOrder s1 (Networks ns)) ?u = ?u\<lparr>IP := ip1\<rparr>"
        "ip1 = [] \<longleftrightarrow> (\<forall>x \<in> set (Networks ns). NetworkIP (snd x) = [])"
        using useNetworks_shape [of "netOrder s1 (Networks ns)" ?u] guard s1 by auto
      obtain ip2 where ip2: "useNetworks (netOrder s2 (Networks ns)) ?u = ?u\<lparr>IP := ip2\<rparr>"
        "ip2 = [] \<longleftrightarrow> (\<forall>x \<in> set (Networks ns). NetworkIP (snd x) = [])"
        using useNetworks_shape [of "netOrder s2 (Networks ns)" ?u] guard s2 by auto
      have r1: "resolveAddress s1 c ns (Upstream ?route) = ?u\<lparr>IP := ip1\<rparr>"
        and r2: "resolveAddress s2 c ns (Upstream ?route) = ?u\<lparr>IP := ip2\<rparr>"
        using guard ip1(1) ip2(1) by (simp_all add: resolveAddress_networks)
      have empty: "ip1 = [] \<longleftrightarrow> ip2 = []" using ip1(2) ip2(2) by simp
      show ?thesis
      proof (cases "host_key ?route \<noteq> [] \<and> Port ?u \<noteq> [] \<and> 7 \<le> length (ID c)")
        case True
        with guard cfg ns have "choosesNetwork ports build c"
          by (simp add: choosesNetwork_def Let_def)
        with assms(3) have "oneNetworkAddress c" by simp
        then have agree: "\<forall>x \<in> set (Networks ns). \<forall>y \<in> set (Networks ns).
           NetworkIP (snd x) \<noteq> [] \<longrightarrow> NetworkIP (snd y) \<noteq> [] \<longrightarrow>
           NetworkIP (snd x) = NetworkIP (snd y)"
          using ns by (simp add: oneNetworkAddress_def)
        have "useNetworks (netOrder s1 (Networks ns)) ?u = useNetworks (netOrder s2 (Networks ns)) ?u"
          by (simp only: useNetworks_reorder [OF s1 agree] useNetworks_reorder [OF s2 agree])
        with r1 r2 ip1(1) ip2(1) cfg ns show ?thesis
          by (simp add: containerRoute_def Let_def)
      next
        case False
        with r1 r2 empty cfg ns guard show ?thesis
          by (auto simp: containerRoute_def Let_def isValid_def)
      qed
    qed
  qed
qed

lemma fold_Add_reorder:
  assumes "\<forall>r \<in> set rs. \<forall>r' \<in> set rs. host_key r = host_key r' \<longrightarrow> r = r'"
    and "mset rs' = mset rs"
  shows "fold (\<lambda>r m. Add m r) rs' acc = fold (\<lambda>r m. Add m r) rs acc"
proof -
  have "(\<lambda>m. Add m x) \<circ> (\<lambda>m. Add m y) = (\<lambda>m. Add m y) \<circ> (\<lambda>m. Add m x)"
    if "x \<in> set rs" "y \<in> set rs" for x y
  proof (cases "x = y")
    case True
    then show ?thesis by simp
  next
    case False
    with that assms(1) have "host_key x \<noteq> host_key y" by blast
    then show ?thesis by (auto simp: Add_def fun_eq_iff)
  qed
  from fold_multiset_equiv [OF this assms(2)[symmetric]] show ?thesis by simp
qed

lemma arrival_reversed: "arrival reversed cs = rev cs"
  by (simp add: reversed_def)

lemma permuting_reversed: "permuting reversed"
  by (simp add: permuting_def reversed_def)

lemma api_ID: "ID api = ''0a1b2c3d4e5f6789''"
  by (simp add: api_def)

lemma api_route_inOrder:
  "containerRoute ''80,8080'' hostBuilder inOrder api =
     Admit \<lparr>host_key = ''api.example.com'',
            Upstream = \<lparr>IP = ''10.1.0.2'', Port = ''80'', Container = ''/api''\<rparr>\<rparr>"
  by (simp add: containerRoute_def api_def hostBuilder_def inOrder_def resolvePort_def
      resolveAddress_def isValid_def Let_def)

lemma api_route_reversed:
  "containerRoute ''80,8080'' hostBuilder reversed api =
     Admit \<lparr>host_key = ''api.example.com'',
            Upstream = \<lparr>IP = ''10.2.0.2'', Port = ''80'', Container = ''/api''\<rparr>\<rparr>"
  by (simp add: containerRoute_def api_def hostBuilder_def reversed_def resolvePort_def
      resolveAddress_def isValid_def Let_def)

lemma pass_api_inOrder:
  "result (createRoutes ''80,8080'' hostBuilder inOrder (daemonOf [api])) =
     Returned
       (Some [''api.example.com'' \<mapsto>
                \<lparr>host_key = ''api.example.com'',
                 Upstream = \<lparr>IP = ''10.1.0.2'', Port = ''80'', Container = ''/api''\<rparr>\<rparr>])
       None"
  by (simp add: createRoutes_def daemonOf_def api_ID api_route_inOrder Add_def arrival_inOrder)

lemma pass_api_reversed:
  "result (createRoutes ''80,8080'' hostBuilder reversed (daemonOf [api])) =
     Returned
       (Some [''api.example.com'' \<mapsto>
                \<lparr>host_key = ''api.example.com'',
                 Upstream = \<lparr>IP = ''10.2.0.2'', Port = ''80'', Container = ''/api''\<rparr>\<rparr>])
       None"
  by (simp add: createRoutes_def daemonOf_def api_ID api_route_reversed Add_def arrival_reversed)

lemma admitted_cong:
  "(\<And>c. c \<in> set cs \<Longrightarrow> containerRoute ports build s1 c = containerRoute ports build s2 c)
   \<Longrightarrow> admitted ports build s1 cs = admitted ports build s2 cs"
proof (induction cs)
  case Nil
  show ?case by simp
next
  case (Cons a cs)
  then have "admitted ports build s1 cs = admitted ports build s2 cs"
    and "containerRoute ports build s1 a = containerRoute ports build s2 a"
    by simp_all
  then show ?case by (simp split: decision.splits)
qed

lemma web_route_any:
  "containerRoute ''80,8080'' hostBuilder sched (web []) =
     Admit \<lparr>host_key = ''foo.example.com'',
            Upstream = \<lparr>IP = ''172.17.0.2'', Port = ''8080'', Container = ''/web''\<rparr>\<rparr>"
  by (simp add: containerRoute_def web_def hostBuilder_def resolvePort_def
      resolveAddress_def isValid_def Let_def)

lemma replica_ID: "ID replica = ''7b6a5948372615ff''"
  by (simp add: replica_def)

lemma replica_route:
  "containerRoute ''80,8080'' hostBuilder sched replica =
     Admit \<lparr>host_key = ''foo.example.com'',
            Upstream = \<lparr>IP = ''172.17.0.3'', Port = ''8080'', Container = ''/replica''\<rparr>\<rparr>"
  by (simp add: containerRoute_def replica_def hostBuilder_def resolvePort_def
      resolveAddress_def isValid_def Let_def)

lemma result_daemonOf:
  "result (createRoutes ports build sched (daemonOf cs)) =
     collect ports build sched (arrival sched (inspected (daemonOf cs))) Map.empty"
  by (simp add: createRoutes_def inspected_def daemonOf_def)

lemma inspected_web_replica:
  "inspected (daemonOf [web [], replica]) = [web [], replica]"
  by (simp add: inspected_def daemonOf_def web_ID replica_ID)

lemma pass_replica_inOrder:
  "result (createRoutes ''80,8080'' hostBuilder inOrder (daemonOf [web [], replica])) =
     Returned
       (Some [''foo.example.com'' \<mapsto>
                \<lparr>host_key = ''foo.example.com'',
                 Upstream = \<lparr>IP = ''172.17.0.3'', Port = ''8080'',
                             Container = ''/replica''\<rparr>\<rparr>])
       None"
  by (simp add: result_daemonOf inspected_web_replica arrival_inOrder web_route_any
      replica_route Add_def)

lemma pass_replica_reversed:
  "result (createRoutes ''80,8080'' hostBuilder reversed (daemonOf [web [], replica])) =
     Returned
       (Some [''foo.example.com'' \<mapsto>
                \<lparr>host_key = ''foo.example.com'',
                 Upstream = \<lparr>IP = ''172.17.0.2'', Port = ''8080'',
                             Container = ''/web''\<rparr>\<rparr>])
       None"
  by (simp add: result_daemonOf inspected_web_replica arrival_reversed web_route_any
      replica_route Add_def)

text \<open>
  Claim C5, as stated, fails: two passes over the same listing and the same inspection
  results differ when the \<open>range\<close> over \<open>Networks\<close> visits the two networks of a
  container in another order, and (with \<open>Routes.Add\<close> storing under the host key) when
  two containers that declare the same host arrive in another order.
\<close>

theorem order_changes_snapshot:
  "result (createRoutes ''80,8080'' hostBuilder inOrder (daemonOf [api]))
     \<noteq> result (createRoutes ''80,8080'' hostBuilder reversed (daemonOf [api]))
   \<and> result (createRoutes ''80,8080'' hostBuilder inOrder (daemonOf [web [], replica]))
     \<noteq> result (createRoutes ''80,8080'' hostBuilder reversed (daemonOf [web [], replica]))"
proof
  show "result (createRoutes ''80,8080'' hostBuilder inOrder (daemonOf [api]))
     \<noteq> result (createRoutes ''80,8080'' hostBuilder reversed (daemonOf [api]))"
  proof
    assume "result (createRoutes ''80,8080'' hostBuilder inOrder (daemonOf [api]))
       = result (createRoutes ''80,8080'' hostBuilder reversed (daemonOf [api]))"
    then have "[''api.example.com'' \<mapsto>
                  \<lparr>host_key = ''api.example.com'',
                   Upstream = \<lparr>IP = ''10.1.0.2'', Port = ''80'', Container = ''/api''\<rparr>\<rparr>]
               = [''api.example.com'' \<mapsto>
                  \<lparr>host_key = ''api.example.com'',
                   Upstream = \<lparr>IP = ''10.2.0.2'', Port = ''80'', Container = ''/api''\<rparr>\<rparr>]"
      by (simp only: pass_api_inOrder pass_api_reversed outcome.inject option.inject)
    then have "\<lparr>host_key = ''api.example.com'',
                   Upstream = \<lparr>IP = ''10.1.0.2'', Port = ''80'', Container = ''/api''\<rparr>\<rparr>
               = \<lparr>host_key = ''api.example.com'',
                   Upstream = \<lparr>IP = ''10.2.0.2'', Port = ''80'', Container = ''/api''\<rparr>\<rparr>"
      by (rule map_upd_eqD1)
    then show False by simp
  qed
next
  show "result (createRoutes ''80,8080'' hostBuilder inOrder (daemonOf [web [], replica]))
     \<noteq> result (createRoutes ''80,8080'' hostBuilder reversed (daemonOf [web [], replica]))"
  proof
    assume "result (createRoutes ''80,8080'' hostBuilder inOrder (daemonOf [web [], replica]))
     = result (createRoutes ''80,8080'' hostBuilder reversed (daemonOf [web [], replica]))"
    then have "[''foo.example.com'' \<mapsto>
                \<lparr>host_key = ''foo.example.com'',
                 Upstream = \<lparr>IP = ''172.17.0.3'', Port = ''8080'',
                             Container = ''/replica''\<rparr>\<rparr>]
             = [''foo.example.com'' \<mapsto>
                \<lparr>host_key = ''foo.example.com'',
                 Upstream = \<lparr>IP = ''172.17.0.2'', Port = ''8080'',
                             Container = ''/web''\<rparr>\<rparr>]"
      by (simp only: pass_replica_inOrder pass_replica_reversed outcome.inject option.inject)
    then have "\<lparr>host_key = ''foo.example.com'',
                 Upstream = \<lparr>IP = ''172.17.0.3'', Port = ''8080'',
                             Container = ''/replica''\<rparr>\<rparr>
             = \<lparr>host_key = ''foo.example.com'',
                 Upstream = \<lparr>IP = ''172.17.0.2'', Port = ''8080'',
                             Container = ''/web''\<rparr>\<rparr>"
      by (rule map_upd_eqD1)
    then show False by simp
  qed
qed


lemma cache_ID: "ID cache = ''9e8d7c6b5a4f3210''"
  by (simp add: cache_def)

lemma cache_route:
  "containerRoute ''80,8080'' hostBuilder inOrder cache =
     Admit \<lparr>host_key = ''cache.example.com'',
            Upstream = \<lparr>IP = ''10.2.0.3'', Port = ''80'', Container = ''/cache''\<rparr>\<rparr>"
  by (simp add: containerRoute_def cache_def hostBuilder_def inOrder_def resolvePort_def
      resolveAddress_def isValid_def Let_def)

lemma inspected_web_cache: "inspected (daemonOf [web [], cache]) = [web [], cache]"
  by (simp add: inspected_def daemonOf_def web_ID cache_ID)

lemma oneNetworkAddress_web: "oneNetworkAddress (web bs)"
  by (simp add: oneNetworkAddress_def web_def)

lemma oneNetworkAddress_cache: "oneNetworkAddress cache"
  by (simp add: oneNetworkAddress_def cache_def)

lemma dual_ID: "ID dual = ''c3d2e1f0a9b87654''"
  by (simp add: dual_def)

lemma dual_route:
  "containerRoute ''80,8080'' hostBuilder sched dual =
     Admit \<lparr>host_key = ''dual.example.com'',
            Upstream = \<lparr>IP = ''172.17.0.4'', Port = ''80'', Container = ''/dual''\<rparr>\<rparr>"
  by (simp add: containerRoute_def dual_def hostBuilder_def resolvePort_def
      resolveAddress_def isValid_def Let_def)

lemma dual_not_choosesNetwork: "\<not> choosesNetwork ''80,8080'' hostBuilder dual"
  by (simp add: choosesNetwork_def dual_def hostBuilder_def resolvePort_def
      addressBeforeNetworks_def Let_def)

lemma dual_two_addresses: "\<not> oneNetworkAddress dual"
  by (simp add: oneNetworkAddress_def dual_def)

lemma inspected_dual_cache: "inspected (daemonOf [dual, cache]) = [dual, cache]"
  by (simp add: inspected_def daemonOf_def dual_ID cache_ID)

text \<open>
  Claim C5, amended. Two passes over the same listing and inspection results, under any
  two schedules that only reorder, return the same result provided that (a) for every
  inspected container whose iteration takes its address from the attached networks
  (\<open>choosesNetwork\<close>), the non-empty addresses of these networks agree, and (b) admitted
  routes with the same host key are the same route.
\<close>

theorem snapshot_independent_of_order:
  assumes "permuting s1" and "permuting s2"
    and "\<forall>c \<in> set (inspected client). choosesNetwork ports build c \<longrightarrow> oneNetworkAddress c"
    and "\<forall>r \<in> set (admitted ports build s1 (inspected client)).
         \<forall>r' \<in> set (admitted ports build s1 (inspected client)).
           host_key r = host_key r' \<longrightarrow> r = r'"
  shows "createRoutes ports build s1 client = createRoutes ports build s2 client"
proof (cases "ListContainers client")
  case (Inl e)
  then show ?thesis by (simp add: createRoutes_def)
next
  case (Inr listing)
  let ?cs = "inspectAll client listing"
  have cs: "inspected client = ?cs" using Inr by (simp add: inspected_def)
  have a1: "mset (arrival s1 ?cs) = mset ?cs" and a2: "mset (arrival s2 ?cs) = mset ?cs"
    using assms(1,2) by (simp_all add: permuting_def)
  have same: "containerRoute ports build s1 c = containerRoute ports build s2 c"
    if "c \<in> set ?cs" for c
    using that assms(1,2,3) cs by (intro containerRoute_reorder) simp_all
  have set1: "set (arrival s1 ?cs) = set ?cs" and set2: "set (arrival s2 ?cs) = set ?cs"
    using a1 a2 by (auto dest: mset_eq_setD)
  have panic: "(\<exists>c \<in> set (arrival s1 ?cs). containerRoute ports build s1 c = Panic)
                \<longleftrightarrow> (\<exists>c \<in> set (arrival s2 ?cs). containerRoute ports build s2 c = Panic)"
    using set1 set2 same by auto
  have "admitted ports build s1 (arrival s2 ?cs) = admitted ports build s2 (arrival s2 ?cs)"
    using same set2 by (intro admitted_cong) simp
  moreover have "mset (admitted ports build s1 (arrival s2 ?cs)) = mset (admitted ports build s1 ?cs)"
    using a2 by (simp add: mset_admitted)
  ultimately have "mset (admitted ports build s2 (arrival s2 ?cs)) = mset (admitted ports build s1 ?cs)"
    by simp
  moreover have m1: "mset (admitted ports build s1 (arrival s1 ?cs)) = mset (admitted ports build s1 ?cs)"
    using a1 by (simp add: mset_admitted)
  ultimately have m: "mset (admitted ports build s2 (arrival s2 ?cs))
                        = mset (admitted ports build s1 (arrival s1 ?cs))" by simp
  have "set (admitted ports build s1 (arrival s1 ?cs)) = set (admitted ports build s1 ?cs)"
    using m1 by (rule mset_eq_setD)
  with assms(4) cs
  have d: "\<forall>r \<in> set (admitted ports build s1 (arrival s1 ?cs)).
           \<forall>r' \<in> set (admitted ports build s1 (arrival s1 ?cs)).
             host_key r = host_key r' \<longrightarrow> r = r'"
    by simp
  have "fold (\<lambda>r m. Add m r) (admitted ports build s2 (arrival s2 ?cs)) Map.empty
          = fold (\<lambda>r m. Add m r) (admitted ports build s1 (arrival s1 ?cs)) Map.empty"
    by (rule fold_Add_reorder [OF d m])
  with panic Inr show ?thesis
    by (simp add: createRoutes_def collect_fold)
qed


theorem snapshot_independent_of_order_witness:
  "permuting inOrder \<and> permuting reversed
   \<and> inspected (daemonOf [dual, cache]) = [dual, cache]
   \<and> \<not> choosesNetwork ''80,8080'' hostBuilder dual \<and> \<not> oneNetworkAddress dual
   \<and> oneNetworkAddress cache
   \<and> map host_key (admitted ''80,8080'' hostBuilder inOrder (inspected (daemonOf [dual, cache])))
       = [''dual.example.com'', ''cache.example.com'']
   \<and> createRoutes ''80,8080'' hostBuilder inOrder (daemonOf [dual, cache])
       = createRoutes ''80,8080'' hostBuilder reversed (daemonOf [dual, cache])"
proof -
  let ?admitted = "admitted ''80,8080'' hostBuilder inOrder (inspected (daemonOf [dual, cache]))"
  have keys: "map host_key ?admitted = [''dual.example.com'', ''cache.example.com'']"
    by (simp add: inspected_dual_cache dual_route cache_route)
  then have "distinct (map host_key ?admitted)" by simp
  then have d: "\<forall>r \<in> set ?admitted. \<forall>r' \<in> set ?admitted. host_key r = host_key r' \<longrightarrow> r = r'"
    by (metis distinct_map inj_onD)
  have one: "\<forall>c \<in> set (inspected (daemonOf [dual, cache])).
               choosesNetwork ''80,8080'' hostBuilder c \<longrightarrow> oneNetworkAddress c"
    by (simp add: inspected_dual_cache dual_not_choosesNetwork oneNetworkAddress_cache)
  from snapshot_independent_of_order [OF permuting_inOrder permuting_reversed one d]
    keys permuting_inOrder permuting_reversed inspected_dual_cache
    dual_not_choosesNetwork dual_two_addresses oneNetworkAddress_cache
  show ?thesis by blast
qed

text \<open>
  Proviso (a) cannot be dropped for any container: where the iteration takes its address
  from the attached networks and two of them give different addresses, two schedules
  that only reorder give different routes.
\<close>

lemma permuting_visitFirst: "permuting (visitFirst x)"
  by (simp add: permuting_def visitFirst_def)

lemma containerRoute_visitFirst:
  assumes "choosesNetwork ports build c" and "Config c = Some cfg"
    and "NetworkSettings c = Some ns"
    and "x \<in> set (Networks ns)" and "NetworkIP (snd x) \<noteq> []"
  shows "containerRoute ports build (visitFirst x) c =
           Admit ((resolvePort ports (build (Env cfg)) ns)
                    \<lparr>Upstream := (addressBeforeNetworks c ns
                                    (Upstream (resolvePort ports (build (Env cfg)) ns)))
                                  \<lparr>IP := NetworkIP (snd x)\<rparr>\<rparr>)"
proof -
  have "netOrder (visitFirst x) (Networks ns) = x # remove1 x (Networks ns)"
    using assms(4) by (simp add: visitFirst_def)
  then have "useNetworks (netOrder (visitFirst x) (Networks ns)) u = u\<lparr>IP := NetworkIP (snd x)\<rparr>"
    for u using assms(5) by (cases x) simp
  with assms show ?thesis
    by (simp add: containerRoute_def choosesNetwork_def Let_def resolveAddress_networks
        isValid_def)
qed

lemma network_proviso_needed:
  assumes "choosesNetwork ports build c" and "\<not> oneNetworkAddress c"
  shows "\<exists>s1 s2. permuting s1 \<and> permuting s2
           \<and> containerRoute ports build s1 c \<noteq> containerRoute ports build s2 c"
proof -
  from assms(1) obtain cfg ns where c: "Config c = Some cfg" "NetworkSettings c = Some ns"
    by (auto simp: choosesNetwork_def split: option.splits)
  with assms(2) obtain x y where xy: "x \<in> set (Networks ns)" "y \<in> set (Networks ns)"
    "NetworkIP (snd x) \<noteq> []" "NetworkIP (snd y) \<noteq> []"
    "NetworkIP (snd x) \<noteq> NetworkIP (snd y)"
    by (auto simp: oneNetworkAddress_def)
  have "containerRoute ports build (visitFirst x) c \<noteq> containerRoute ports build (visitFirst y) c"
  proof
    assume "containerRoute ports build (visitFirst x) c = containerRoute ports build (visitFirst y) c"
    then have "IP (Upstream ((resolvePort ports (build (Env cfg)) ns)
                    \<lparr>Upstream := (addressBeforeNetworks c ns
                                    (Upstream (resolvePort ports (build (Env cfg)) ns)))
                                  \<lparr>IP := NetworkIP (snd x)\<rparr>\<rparr>))
             = IP (Upstream ((resolvePort ports (build (Env cfg)) ns)
                    \<lparr>Upstream := (addressBeforeNetworks c ns
                                    (Upstream (resolvePort ports (build (Env cfg)) ns)))
                                  \<lparr>IP := NetworkIP (snd y)\<rparr>\<rparr>))"
      by (simp only: containerRoute_visitFirst [OF assms(1) c xy(1) xy(3)]
            containerRoute_visitFirst [OF assms(1) c xy(2) xy(4)] decision.inject)
    with xy(5) show False by simp
  qed
  then show ?thesis using permuting_visitFirst by blast
qed

section \<open>Properties of the synchronization loop\<close>

subsection \<open>Steps and runs\<close>

lemma run_two:
  "run hasUpdateFunc ports build st [a, a'] =
     (fst (step hasUpdateFunc ports build (fst (step hasUpdateFunc ports build st a)) a'),
      snd (step hasUpdateFunc ports build st a)
      @ snd (step hasUpdateFunc ports build (fst (step hasUpdateFunc ports build st a)) a'))"
  by (simp add: Let_def split: prod.splits)

lemma outerStep_disconnected:
  "cur_client st = None \<Longrightarrow>
   \<exists>rest. snd (outerStep hasUpdateFunc ports build st a) = NewClientFromEnv # rest
     \<and> (\<forall>e. connect_reply a = Inl e \<longrightarrow>
            rest = [Errorln ''Unable to connect to docker daemon:'', Sleep ReconnectTime])"
  by (simp add: outerStep_def Let_def split: sum.splits prod.splits)

lemma outerStep_connected:
  "cur_client st = Some h \<Longrightarrow>
   \<exists>rest. snd (outerStep hasUpdateFunc ports build st a) = Ping # rest"
  by (simp add: outerStep_def Let_def split: sum.splits prod.splits)

lemma snd_enumerate:
  "snd (enumerate hasUpdateFunc ports build a st) =
     (case result (createRoutes ports build (pass_schedule a) (daemon_reply a)) of
        Panicked \<Rightarrow> [CreateRoutes]
      | Returned routes err \<Rightarrow>
           [CreateRoutes]
           @ (if err \<noteq> None then [Errorln ''Error enumerating routes:''] else [])
           @ (if err = None \<and> hasUpdateFunc then [UpdateFunc routes] else []))"
  by (simp add: enumerate_def split: outcome.splits)

lemma outerStep_attempt:
  assumes "cur_client st = None"
  shows "\<exists>rest. snd (outerStep hasUpdateFunc ports build st a) = NewClientFromEnv # rest
     \<and> (\<forall>e. connect_reply a = Inl e \<longrightarrow>
            rest = [Errorln ''Unable to connect to docker daemon:'', Sleep ReconnectTime])
     \<and> (\<forall>hd. connect_reply a = Inr hd \<longrightarrow> (\<forall>n. Sleep n \<notin> set rest))"
proof (cases "connect_reply a")
  case (Inl e)
  with assms show ?thesis by (simp add: outerStep_def)
next
  case (Inr hd)
  have "Sleep n \<notin> set (snd (enumerate hasUpdateFunc ports build a st'))" for n st'
    by (simp add: snd_enumerate split: outcome.splits)
  with assms Inr show ?thesis
    by (simp add: outerStep_def split: prod.splits) (metis snd_conv)
qed

lemma pass_empty:
  "result (createRoutes ports build inOrder (daemonOf [])) = Returned (Some Map.empty) None"
  by (simp add: createRoutes_def daemonOf_def arrival_inOrder)

lemma connect_quiet:
  "step True ports build
     \<lparr>cur_client = None, cur_routes = None, watching = False, at = OuterLoop\<rparr>
     (quiet (daemonOf [])) =
   (\<lparr>cur_client = Some Handle, cur_routes = Some Map.empty, watching = False, at = InnerLoop\<rparr>,
    [NewClientFromEnv, Debugln ''Connected to docker daemon...'', CreateRoutes,
     UpdateFunc (Some Map.empty)])"
  by (simp add: step_def outerStep_def enumerate_def quiet_def pass_empty)

lemma subscribe_quiet:
  "step True ports build
     \<lparr>cur_client = Some Handle, cur_routes = Some Map.empty, watching = False, at = InnerLoop\<rparr>
     (quiet (daemonOf [])) =
   (\<lparr>cur_client = Some Handle, cur_routes = Some Map.empty, watching = True, at = InnerLoop\<rparr>,
    [Ping, AddEventListener, Infoln ''Watching docker events...''])"
  by (simp add: step_def innerStep_def quiet_def)

subsection \<open>A failed ping\<close>

text \<open>
  Claim C6, as stated, fails: when the ping fails before the loop is watching, the
  subscription is not removed and the client handle is kept; only the wait happens.
\<close>

theorem ping_failure_before_watching_keeps_handle:
  "watchEvents True ''80,8080'' hostBuilder [quiet (daemonOf []), pingFails (daemonOf [])] =
     (\<lparr>cur_client = Some Handle, cur_routes = Some Map.empty, watching = False, at = OuterLoop\<rparr>,
      [NewClientFromEnv, Debugln ''Connected to docker daemon...'', CreateRoutes,
       UpdateFunc (Some Map.empty),
       Ping, Errorln ''Unable to ping docker daemon:'', Sleep ReconnectTime])"
proof -
  have "step True ''80,8080'' hostBuilder
     \<lparr>cur_client = Some Handle, cur_routes = Some Map.empty, watching = False, at = InnerLoop\<rparr>
     (pingFails (daemonOf [])) =
   (\<lparr>cur_client = Some Handle, cur_routes = Some Map.empty, watching = False, at = OuterLoop\<rparr>,
    [Ping, Errorln ''Unable to ping docker daemon:'', Sleep ReconnectTime])"
    by (simp add: step_def innerStep_def pingFails_def quiet_def)
  then show ?thesis
    unfolding watchEvents_def run_two by (simp add: connect_quiet)
qed

text \<open>
  Claim C6, amended. Whenever the liveness ping of the inner loop fails, the loop logs the
  error, waits the reconnect interval and goes back to the head of the outer loop. If it
  was watching, it first removes the event subscription and drops the client handle, and
  the next thing it does is a new connection attempt. If it was not yet watching, nothing
  is removed and the handle is kept, and the next thing it does is to ping that handle.
\<close>

theorem ping_failure_backs_off:
  assumes "at st = InnerLoop" and "cur_client st = Some h" and "ping_reply a = Some err"
  shows "step hasUpdateFunc ports build st a =
           (if watching st
            then (st\<lparr>cur_client := None, watching := False, at := OuterLoop\<rparr>,
                  [Ping, Errorln ''Unable to ping docker daemon:'', RemoveEventListener,
                   Sleep ReconnectTime])
            else (st\<lparr>at := OuterLoop\<rparr>,
                  [Ping, Errorln ''Unable to ping docker daemon:'', Sleep ReconnectTime]))
         \<and> (watching st \<longrightarrow>
               (\<exists>rest. snd (run hasUpdateFunc ports build st [a, a']) =
                   [Ping, Errorln ''Unable to ping docker daemon:'', RemoveEventListener,
                    Sleep ReconnectTime, NewClientFromEnv] @ rest))
         \<and> (\<not> watching st \<longrightarrow>
               (\<exists>rest. snd (run hasUpdateFunc ports build st [a, a']) =
                   [Ping, Errorln ''Unable to ping docker daemon:'', Sleep ReconnectTime,
                    Ping] @ rest))"
proof -
  have one: "step hasUpdateFunc ports build st a =
           (if watching st
            then (st\<lparr>cur_client := None, watching := False, at := OuterLoop\<rparr>,
                  [Ping, Errorln ''Unable to ping docker daemon:'', RemoveEventListener,
                   Sleep ReconnectTime])
            else (st\<lparr>at := OuterLoop\<rparr>,
                  [Ping, Errorln ''Unable to ping docker daemon:'', Sleep ReconnectTime]))"
    using assms by (simp add: step_def innerStep_def)
  have w: "\<exists>rest. snd (run hasUpdateFunc ports build st [a, a']) =
                   [Ping, Errorln ''Unable to ping docker daemon:'', RemoveEventListener,
                    Sleep ReconnectTime, NewClientFromEnv] @ rest" if "watching st"
  proof -
    let ?st = "st\<lparr>cur_client := None, watching := False, at := OuterLoop\<rparr>"
    have "cur_client ?st = None" by simp
    from outerStep_disconnected [OF this, of hasUpdateFunc ports build a']
    obtain rest where "snd (outerStep hasUpdateFunc ports build ?st a') = NewClientFromEnv # rest"
      by blast
    moreover have "step hasUpdateFunc ports build ?st a' = outerStep hasUpdateFunc ports build ?st a'"
      by (simp add: step_def)
    moreover have "step hasUpdateFunc ports build st a =
        (?st, [Ping, Errorln ''Unable to ping docker daemon:'', RemoveEventListener,
                   Sleep ReconnectTime])"
      using one that by simp
    ultimately show ?thesis unfolding run_two by simp
  qed
  have n: "\<exists>rest. snd (run hasUpdateFunc ports build st [a, a']) =
                   [Ping, Errorln ''Unable to ping docker daemon:'', Sleep ReconnectTime,
                    Ping] @ rest" if "\<not> watching st"
  proof -
    let ?st = "st\<lparr>at := OuterLoop\<rparr>"
    have "cur_client ?st = Some h" using assms(2) by simp
    from outerStep_connected [OF this, of hasUpdateFunc ports build a']
    obtain rest where "snd (outerStep hasUpdateFunc ports build ?st a') = Ping # rest"
      by blast
    moreover have "step hasUpdateFunc ports build ?st a' = outerStep hasUpdateFunc ports build ?st a'"
      by (simp add: step_def)
    moreover have "step hasUpdateFunc ports build st a =
        (?st, [Ping, Errorln ''Unable to ping docker daemon:'', Sleep ReconnectTime])"
      using one that by simp
    ultimately show ?thesis unfolding run_two by simp
  qed
  from one w n show ?thesis by blast
qed


theorem ping_failure_backs_off_witness:
  "fst (watchEvents True ''80,8080'' hostBuilder [quiet (daemonOf []), quiet (daemonOf [])]) =
     \<lparr>cur_client = Some Handle, cur_routes = Some Map.empty, watching = True, at = InnerLoop\<rparr>
   \<and> ping_reply (pingFails (daemonOf [])) = Some (Err ''EOF'')
   \<and> step True ''80,8080'' hostBuilder
         \<lparr>cur_client = Some Handle, cur_routes = Some Map.empty, watching = True, at = InnerLoop\<rparr>
         (pingFails (daemonOf [])) =
       (\<lparr>cur_client = None, cur_routes = Some Map.empty, watching = False, at = OuterLoop\<rparr>,
        [Ping, Errorln ''Unable to ping docker daemon:'', RemoveEventListener,
         Sleep ReconnectTime])"
proof -
  let ?st = "\<lparr>cur_client = Some Handle, cur_routes = Some Map.empty, watching = True,
              at = InnerLoop\<rparr>"
  have reach: "fst (watchEvents True ''80,8080'' hostBuilder
                      [quiet (daemonOf []), quiet (daemonOf [])]) = ?st"
    unfolding watchEvents_def run_two by (simp add: connect_quiet subscribe_quiet)
  have p: "ping_reply (pingFails (daemonOf [])) = Some (Err ''EOF'')"
    by (simp add: pingFails_def quiet_def)
  have "at ?st = InnerLoop" and "cur_client ?st = Some Handle" by simp_all
  from ping_failure_backs_off [OF this p, of True "''80,8080''" hostBuilder]
  have "step True ''80,8080'' hostBuilder ?st (pingFails (daemonOf [])) =
       (\<lparr>cur_client = None, cur_routes = Some Map.empty, watching = False, at = OuterLoop\<rparr>,
        [Ping, Errorln ''Unable to ping docker daemon:'', RemoveEventListener,
         Sleep ReconnectTime])"
    by simp
  with reach p show ?thesis by blast
qed

subsection \<open>The nil event\<close>

lemma run_three:
  "run hasUpdateFunc ports build st [a, a2, a3] =
     (let s1 = step hasUpdateFunc ports build st a;
          s2 = step hasUpdateFunc ports build (fst s1) a2;
          s3 = step hasUpdateFunc ports build (fst s2) a3
      in (fst s3, snd s1 @ snd s2 @ snd s3))"
  by (simp add: Let_def split: prod.splits)

text \<open>
  Claim C7. When the \<open>select\<close> yields the nil event while the loop is watching (from before,
  or since the subscription made in this iteration), the subscription is removed and the
  client handle is dropped, without any wait; the inner loop is then left at its head,
  and the next call the loop makes is the connection attempt. If that attempt fails the
  loop logs and waits the reconnect interval; if it succeeds, the step waits nowhere.
\<close>

theorem nil_event_reconnects_without_sleep:
  assumes "at st = InnerLoop" and "cur_client st = Some h" and "ping_reply a = None"
    and "watching st \<or> listen_reply a = None
         \<or> listen_reply a = Some ErrListenerAlreadyExists"
    and "select_reply a = Event None"
  shows "step hasUpdateFunc ports build st a =
           (st\<lparr>cur_client := None, watching := False\<rparr>,
            Ping # (if watching st then []
                    else [AddEventListener, Infoln ''Watching docker events...''])
            @ [RemoveEventListener])
         \<and> (\<exists>rest. snd (run hasUpdateFunc ports build st [a, a2, a3]) =
                Ping # (if watching st then []
                        else [AddEventListener, Infoln ''Watching docker events...''])
                @ [RemoveEventListener, NewClientFromEnv] @ rest
              \<and> (\<forall>e. connect_reply a3 = Inl e \<longrightarrow>
                     rest = [Errorln ''Unable to connect to docker daemon:'',
                             Sleep ReconnectTime])
              \<and> (\<forall>hd. connect_reply a3 = Inr hd \<longrightarrow> (\<forall>n. Sleep n \<notin> set rest)))"
proof -
  let ?st1 = "st\<lparr>cur_client := None, watching := False\<rparr>"
  let ?acts = "Ping # (if watching st then []
                    else [AddEventListener, Infoln ''Watching docker events...''])
            @ [RemoveEventListener]"
  have s1: "step hasUpdateFunc ports build st a = (?st1, ?acts)"
    using assms by (auto simp: step_def innerStep_def Let_def)
  have s2: "step hasUpdateFunc ports build ?st1 a2 = (?st1\<lparr>at := OuterLoop\<rparr>, [])"
    using assms(1) by (simp add: step_def innerStep_def)
  have s3: "step hasUpdateFunc ports build (?st1\<lparr>at := OuterLoop\<rparr>) a3
              = outerStep hasUpdateFunc ports build (?st1\<lparr>at := OuterLoop\<rparr>) a3"
    by (simp add: step_def)
  have "cur_client (?st1\<lparr>at := OuterLoop\<rparr>) = None" by simp
  from outerStep_attempt [OF this, of hasUpdateFunc ports build a3]
  obtain rest where rest:
    "snd (outerStep hasUpdateFunc ports build (?st1\<lparr>at := OuterLoop\<rparr>) a3)
       = NewClientFromEnv # rest"
    "\<forall>e. connect_reply a3 = Inl e \<longrightarrow>
            rest = [Errorln ''Unable to connect to docker daemon:'', Sleep ReconnectTime]"
    "\<forall>hd. connect_reply a3 = Inr hd \<longrightarrow> (\<forall>n. Sleep n \<notin> set rest)"
    by blast
  have "snd (run hasUpdateFunc ports build st [a, a2, a3]) =
          ?acts @ NewClientFromEnv # rest"
    unfolding run_three by (simp add: s1 s2 s3 rest(1) Let_def)
  with s1 rest(2,3) show ?thesis by auto
qed

theorem nil_event_reconnects_without_sleep_witness:
  "fst (watchEvents True ''80,8080'' hostBuilder [quiet (daemonOf []), quiet (daemonOf [])]) =
     \<lparr>cur_client = Some Handle, cur_routes = Some Map.empty, watching = True, at = InnerLoop\<rparr>
   \<and> select_reply (delivers None (daemonOf [])) = Event None
   \<and> snd (run True ''80,8080'' hostBuilder
         \<lparr>cur_client = Some Handle, cur_routes = Some Map.empty, watching = True, at = InnerLoop\<rparr>
         [delivers None (daemonOf []), quiet (daemonOf []), connectFails (daemonOf [])]) =
       [Ping, RemoveEventListener, NewClientFromEnv,
        Errorln ''Unable to connect to docker daemon:'', Sleep ReconnectTime]
   \<and> connect_reply (quiet (daemonOf [])) = Inr Handle
   \<and> Sleep ReconnectTime \<notin> set (snd (run True ''80,8080'' hostBuilder
         \<lparr>cur_client = Some Handle, cur_routes = Some Map.empty, watching = True, at = InnerLoop\<rparr>
         [delivers None (daemonOf []), quiet (daemonOf []), quiet (daemonOf [])]))"
proof -
  let ?st = "\<lparr>cur_client = Some Handle, cur_routes = Some Map.empty, watching = True,
              at = InnerLoop\<rparr>"
  let ?a = "delivers None (daemonOf [])"
  have reach: "fst (watchEvents True ''80,8080'' hostBuilder
                      [quiet (daemonOf []), quiet (daemonOf [])]) = ?st"
    unfolding watchEvents_def run_two by (simp add: connect_quiet subscribe_quiet)
  have sel: "select_reply ?a = Event None" and ping: "ping_reply ?a = None"
    by (simp_all add: delivers_def quiet_def)
  have c: "connect_reply (connectFails (daemonOf [])) = Inl (Err ''connection refused'')"
    by (simp add: connectFails_def quiet_def)
  have loc: "at ?st = InnerLoop" and cl: "cur_client ?st = Some Handle"
    and w: "watching ?st \<or> listen_reply ?a = None
         \<or> listen_reply ?a = Some ErrListenerAlreadyExists"
    by simp_all
  from nil_event_reconnects_without_sleep [OF loc cl ping w sel,
      of True "''80,8080''" hostBuilder "quiet (daemonOf [])" "connectFails (daemonOf [])"]
  have "snd (run True ''80,8080'' hostBuilder ?st
         [?a, quiet (daemonOf []), connectFails (daemonOf [])]) =
       [Ping, RemoveEventListener, NewClientFromEnv,
        Errorln ''Unable to connect to docker daemon:'', Sleep ReconnectTime]"
    using c by auto
  moreover
  have c': "connect_reply (quiet (daemonOf [])) = Inr Handle"
    by (simp add: quiet_def)
  from nil_event_reconnects_without_sleep [OF loc cl ping w sel,
      of True "''80,8080''" hostBuilder "quiet (daemonOf [])" "quiet (daemonOf [])"]
  obtain rest where "snd (run True ''80,8080'' hostBuilder ?st
         [?a, quiet (daemonOf []), quiet (daemonOf [])]) =
       Ping # (if watching ?st then []
               else [AddEventListener, Infoln ''Watching docker events...''])
       @ [RemoveEventListener, NewClientFromEnv] @ rest"
    and "\<forall>hd. connect_reply (quiet (daemonOf [])) = Inr hd \<longrightarrow> (\<forall>n. Sleep n \<notin> set rest)"
    by blast
  with c' have "Sleep ReconnectTime \<notin> set (snd (run True ''80,8080'' hostBuilder ?st
         [?a, quiet (daemonOf []), quiet (daemonOf [])]))"
    by simp
  ultimately show ?thesis using reach sel c' by blast
qed

subsection \<open>Lifecycle events\<close>





subsection \<open>The callback\<close>

lemma createRoutes_nil_error:
  "result (createRoutes ports build sched client) = Returned snap None \<Longrightarrow> snap \<noteq> None"
  by (cases "ListContainers client") (auto simp: createRoutes_def dest: collect_valid)

lemma enumerate_update:
  assumes "UpdateFunc r \<in> set (snd (enumerate hasUpdateFunc ports build a st))"
  shows "hasUpdateFunc \<and> r \<noteq> None
   \<and> result (createRoutes ports build (pass_schedule a) (daemon_reply a)) = Returned r None"
proof -
  from assms have "hasUpdateFunc"
    and "result (createRoutes ports build (pass_schedule a) (daemon_reply a)) = Returned r None"
    by (auto simp: snd_enumerate split: outcome.splits if_splits)
  then show ?thesis using createRoutes_nil_error by blast
qed

lemma outerStep_update:
  "UpdateFunc r \<in> set (snd (outerStep hasUpdateFunc ports build st a)) \<Longrightarrow>
   \<exists>st'. UpdateFunc r \<in> set (snd (enumerate hasUpdateFunc ports build a st'))"
  unfolding outerStep_def Let_def
  by (auto split: sum.splits prod.splits if_splits) (metis snd_conv)+


lemma innerStep_update:
  "UpdateFunc r \<in> set (snd (innerStep hasUpdateFunc ports build st a)) \<Longrightarrow>
   \<exists>st'. UpdateFunc r \<in> set (snd (enumerate hasUpdateFunc ports build a st'))"
  unfolding innerStep_def Let_def
  by (auto split: option.splits selected.splits prod.splits if_splits) (metis snd_conv)+

lemma step_update:
  "UpdateFunc r \<in> set (snd (step hasUpdateFunc ports build st a)) \<Longrightarrow>
   \<exists>st'. UpdateFunc r \<in> set (snd (enumerate hasUpdateFunc ports build a st'))"
  by (cases "at st") (auto simp: step_def dest: outerStep_update innerStep_update)

lemma run_update:
  "UpdateFunc r \<in> set (snd (run hasUpdateFunc ports build st as)) \<Longrightarrow> r \<noteq> None"
proof (induction as arbitrary: st)
  case Nil
  then show ?case by simp
next
  case (Cons a as)
  obtain st' acts where s: "step hasUpdateFunc ports build st a = (st', acts)"
    by (cases "step hasUpdateFunc ports build st a")
  with Cons.prems have "UpdateFunc r \<in> set acts
      \<or> UpdateFunc r \<in> set (snd (run hasUpdateFunc ports build st' as))"
    by (auto simp: Let_def split: prod.splits)
  then show ?case
  proof
    assume "UpdateFunc r \<in> set acts"
    with s have "UpdateFunc r \<in> set (snd (step hasUpdateFunc ports build st a))" by simp
    from step_update [OF this] enumerate_update show ?thesis by blast
  next
    assume "UpdateFunc r \<in> set (snd (run hasUpdateFunc ports build st' as))"
    then show ?thesis by (rule Cons.IH)
  qed
qed


lemma enumerate_without_callback:
  "enumerate False ports build a st =
     (fst (enumerate True ports build a st),
      filter (\<lambda>x. \<not> isUpdate x) (snd (enumerate True ports build a st)))"
  by (simp add: enumerate_def split: outcome.splits)

lemma outerStep_without_callback:
  "outerStep False ports build st a =
     (fst (outerStep True ports build st a),
      filter (\<lambda>x. \<not> isUpdate x) (snd (outerStep True ports build st a)))"
proof (cases "connect_reply a")
  case (Inl e)
  then show ?thesis by (simp add: outerStep_def Let_def)
next
  case (Inr hd)
  obtain st' acts where e: "enumerate True ports build a (st\<lparr>cur_client := Some hd\<rparr>) = (st', acts)"
    by (cases "enumerate True ports build a (st\<lparr>cur_client := Some hd\<rparr>)")
  then have "enumerate False ports build a (st\<lparr>cur_client := Some hd\<rparr>)
               = (st', filter (\<lambda>x. \<not> isUpdate x) acts)"
    by (simp add: enumerate_without_callback)
  with e Inr show ?thesis by (simp add: outerStep_def Let_def)
qed


lemma innerStep_without_callback:
  "innerStep False ports build st a =
     (fst (innerStep True ports build st a),
      filter (\<lambda>x. \<not> isUpdate x) (snd (innerStep True ports build st a)))"
proof -
  obtain st' acts where e: "enumerate True ports build a (st\<lparr>watching := True\<rparr>) = (st', acts)"
    by (cases "enumerate True ports build a (st\<lparr>watching := True\<rparr>)")
  then have "enumerate False ports build a (st\<lparr>watching := True\<rparr>)
               = (st', filter (\<lambda>x. \<not> isUpdate x) acts)"
    by (simp add: enumerate_without_callback)
  with e show ?thesis
  proof (cases "cur_client st")
    case None
    then show ?thesis by (simp add: innerStep_def)
  next
    case client: (Some hd)
    show ?thesis
    proof (cases "ping_reply a")
      case (Some err)
      with client show ?thesis by (simp add: innerStep_def)
    next
      case None
      show ?thesis
      proof (cases "select_reply a")
        case Timeout
        with client None show ?thesis by (simp add: innerStep_def Let_def)
      next
        case (Event ev)
        show ?thesis
        proof (cases ev)
          case None
          with client \<open>ping_reply a = None\<close> Event show ?thesis
            by (simp add: innerStep_def Let_def)
        next
          case (Some event)
          with client \<open>ping_reply a = None\<close> Event e
            \<open>enumerate False ports build a (st\<lparr>watching := True\<rparr>)
               = (st', filter (\<lambda>x. \<not> isUpdate x) acts)\<close>
          show ?thesis by (simp add: innerStep_def Let_def)
        qed
      qed
    qed
  qed
qed

lemma step_without_callback:
  "step False ports build st a =
     (fst (step True ports build st a),
      filter (\<lambda>x. \<not> isUpdate x) (snd (step True ports build st a)))"
  by (cases "at st")
     (simp_all add: step_def outerStep_without_callback [symmetric]
        innerStep_without_callback [symmetric])

lemma run_without_callback:
  "run False ports build st as =
     (fst (run True ports build st as),
      filter (\<lambda>x. \<not> isUpdate x) (snd (run True ports build st as)))"
proof (induction as arbitrary: st)
  case Nil
  show ?case by simp
next
  case (Cons a as)
  obtain st' acts where s: "step True ports build st a = (st', acts)"
    by (cases "step True ports build st a")
  then have s': "step False ports build st a = (st', filter (\<lambda>x. \<not> isUpdate x) acts)"
    by (simp add: step_without_callback)
  obtain st'' acts' where r: "run True ports build st' as = (st'', acts')"
    by (cases "run True ports build st' as")
  then have "run False ports build st' as = (st'', filter (\<lambda>x. \<not> isUpdate x) acts')"
    by (simp add: Cons.IH)
  with s s' r show ?case by simp
qed

text \<open>
  Claim C10. \<open>watchEvents\<close> never calls the callback with the nil map: a step calls it only
  if \<open>updateFunc\<close> is not nil and the pass of that step returned a nil error, and its
  argument is then the map that the pass returned, which is not nil. With a nil
  \<open>updateFunc\<close> the loop takes the same steps through the same states and makes the same
  calls, the callback excepted.
\<close>

theorem callback_never_gets_nil:
  "UpdateFunc None \<notin> set (snd (watchEvents hasUpdateFunc ports build as))
   \<and> (UpdateFunc r \<in> set (snd (step hasUpdateFunc ports build st a)) \<longrightarrow>
        hasUpdateFunc \<and> r \<noteq> None
        \<and> result (createRoutes ports build (pass_schedule a) (daemon_reply a))
            = Returned r None)
   \<and> watchEvents False ports build as =
        (fst (watchEvents True ports build as),
         filter (\<lambda>x. \<not> isUpdate x) (snd (watchEvents True ports build as)))"
proof (intro conjI impI)
  show "UpdateFunc None \<notin> set (snd (watchEvents hasUpdateFunc ports build as))"
    unfolding watchEvents_def using run_update by blast
next
  assume "UpdateFunc r \<in> set (snd (step hasUpdateFunc ports build st a))"
  from step_update [OF this] obtain st'
    where "UpdateFunc r \<in> set (snd (enumerate hasUpdateFunc ports build a st'))" by blast
  from enumerate_update [OF this]
  show "hasUpdateFunc" and "r \<noteq> None"
    and "result (createRoutes ports build (pass_schedule a) (daemon_reply a)) = Returned r None"
    by simp_all
next
  show "watchEvents False ports build as =
        (fst (watchEvents True ports build as),
         filter (\<lambda>x. \<not> isUpdate x) (snd (watchEvents True ports build as)))"
    unfolding watchEvents_def by (rule run_without_callback)
qed

theorem callback_never_gets_nil_witness:
  "UpdateFunc (Some Map.empty)
     \<in> set (snd (step True ''80,8080'' hostBuilder
                   \<lparr>cur_client = None, cur_routes = None, watching = False, at = OuterLoop\<rparr>
                   (quiet (daemonOf []))))
   \<and> Some (Map.empty :: Routes) \<noteq> None
   \<and> result (createRoutes ''80,8080'' hostBuilder (pass_schedule (quiet (daemonOf [])))
               (daemon_reply (quiet (daemonOf []))))
       = Returned (Some Map.empty) None
   \<and> watchEvents False ''80,8080'' hostBuilder [quiet (daemonOf []), quiet (daemonOf [])] =
       (\<lparr>cur_client = Some Handle, cur_routes = Some Map.empty, watching = True,
          at = InnerLoop\<rparr>,
        [NewClientFromEnv, Debugln ''Connected to docker daemon...'', CreateRoutes,
         Ping, AddEventListener, Infoln ''Watching docker events...''])"
proof -
  let ?init = "\<lparr>cur_client = None, cur_routes = None, watching = False, at = OuterLoop\<rparr>"
  have u: "UpdateFunc (Some Map.empty)
     \<in> set (snd (step True ''80,8080'' hostBuilder ?init (quiet (daemonOf []))))"
    by (simp add: connect_quiet)
  have w: "watchEvents True ''80,8080'' hostBuilder [quiet (daemonOf []), quiet (daemonOf [])] =
       (\<lparr>cur_client = Some Handle, cur_routes = Some Map.empty, watching = True,
          at = InnerLoop\<rparr>,
        [NewClientFromEnv, Debugln ''Connected to docker daemon...'', CreateRoutes,
         UpdateFunc (Some Map.empty),
         Ping, AddEventListener, Infoln ''Watching docker events...''])"
    unfolding watchEvents_def run_two by (simp add: connect_quiet subscribe_quiet)
  note t = callback_never_gets_nil
    [of True "''80,8080''" hostBuilder "[quiet (daemonOf []), quiet (daemonOf [])]"
        "Some Map.empty" ?init "quiet (daemonOf [])"]
  from t u have "Some (Map.empty :: Routes) \<noteq> None"
    and "result (createRoutes ''80,8080'' hostBuilder (pass_schedule (quiet (daemonOf [])))
               (daemon_reply (quiet (daemonOf []))))
       = Returned (Some Map.empty) None"
    by blast+
  moreover from t w
  have "watchEvents False ''80,8080'' hostBuilder [quiet (daemonOf []), quiet (daemonOf [])] =
       (\<lparr>cur_client = Some Handle, cur_routes = Some Map.empty, watching = True,
          at = InnerLoop\<rparr>,
        [NewClientFromEnv, Debugln ''Connected to docker daemon...'', CreateRoutes,
         Ping, AddEventListener, Infoln ''Watching docker events...''])"
    by simp
  ultimately show ?thesis using u by blast
qed

end
